theory Spec2Isabelle
  imports Complex_Main
begin

section \<open>Strings\<close>

text \<open>
  A JavaScript string is a sequence of UTF-16 code units. It is modelled as a
  \<^typ>\<open>string\<close>, one character per code unit; the characters of the model are the
  code units below 256. The functions of \<^verbatim>\<open>utils/embeddingUtils.ts\<close> inspect only the
  code units of line feed, space, full stop, exclamation mark and question mark; the
  hash of \<^verbatim>\<open>services/modelService.ts\<close> reads a code unit as a number.
\<close>

definition matchesAt :: "string \<Rightarrow> string \<Rightarrow> nat \<Rightarrow> bool" where
  "matchesAt text pat i = (take (length pat) (drop i text) = pat)"

text \<open>
  \<^verbatim>\<open>text.lastIndexOf(pat, fromIndex)\<close>: the greatest index not above
  \<^verbatim>\<open>fromIndex\<close> at which \<^verbatim>\<open>pat\<close> occurs, and \<open>-1\<close> when there is none.
\<close>

fun lastIndexOf :: "string \<Rightarrow> string \<Rightarrow> nat \<Rightarrow> int" where
  "lastIndexOf text pat 0 = (if matchesAt text pat 0 then 0 else - 1)"
| "lastIndexOf text pat (Suc n) =
     (if matchesAt text pat (Suc n) then int (Suc n) else lastIndexOf text pat n)"

text \<open>
  \<^verbatim>\<open>text.substring(a, b)\<close>: both indices are clamped to the length of the text and
  swapped when the first is the greater.
\<close>

definition substring :: "string \<Rightarrow> nat \<Rightarrow> nat \<Rightarrow> string" where
  "substring text a b =
     (let a' = min a (length text); b' = min b (length text);
          lo = min a' b'; hi = max a' b'
      in take (hi - lo) (drop lo text))"

section \<open>splitTextIntoChunks\<close>

text \<open>
  The test \<^verbatim>\<open>b > startIndex && b > startIndex + maxChunkLength / 2\<close> of the source,
  where the division is the exact one of JavaScript numbers: the second comparison is
  written with both sides doubled.
\<close>

definition beyondMidpoint :: "int \<Rightarrow> nat \<Rightarrow> nat \<Rightarrow> bool" where
  "beyondMidpoint b startIndex maxChunkLength =
     (b > int startIndex \<and> 2 * b > 2 * int startIndex + int maxChunkLength)"

text \<open>The body of the loop up to the assignment of \<^verbatim>\<open>endIndex\<close>.\<close>

definition nextEndIndex :: "string \<Rightarrow> nat \<Rightarrow> nat \<Rightarrow> nat" where
  "nextEndIndex text maxChunkLength startIndex =
     (let endIndex = startIndex + maxChunkLength in
      if endIndex < length text then
        (let paragraphBreak = lastIndexOf text ''\<newline>\<newline>'' endIndex in
         if beyondMidpoint paragraphBreak startIndex maxChunkLength
         then nat (paragraphBreak + 2)
         else
           (let newlineBreak = lastIndexOf text ''\<newline>'' endIndex in
            if beyondMidpoint newlineBreak startIndex maxChunkLength
            then nat (newlineBreak + 1)
            else
              (let sentenceBreak =
                     max (max (lastIndexOf text ''. '' endIndex)
                              (lastIndexOf text ''! '' endIndex))
                         (lastIndexOf text ''? '' endIndex) in
               if beyondMidpoint sentenceBreak startIndex maxChunkLength
               then nat (sentenceBreak + 2)
               else
                 (let spaceBreak = lastIndexOf text '' '' endIndex in
                  if beyondMidpoint spaceBreak startIndex maxChunkLength
                  then nat (spaceBreak + 1)
                  else endIndex))))
      else endIndex)"

text \<open>
  The \<^verbatim>\<open>while (startIndex < text.length)\<close> loop. With \<^verbatim>\<open>maxChunkLength = 0\<close>
  the source never leaves it, so the loop is a partial function: not returning is
  \<open>None\<close>.
\<close>

partial_function (option) chunkLoop ::
  "string \<Rightarrow> nat \<Rightarrow> nat \<Rightarrow> string list \<Rightarrow> string list option" where
  "chunkLoop text maxChunkLength startIndex chunks =
     (if startIndex < length text then
        chunkLoop text maxChunkLength (nextEndIndex text maxChunkLength startIndex)
          (chunks @ [substring text startIndex (nextEndIndex text maxChunkLength startIndex)])
      else Some chunks)"

declare chunkLoop.simps [code]

definition splitTextIntoChunks :: "string \<Rightarrow> nat \<Rightarrow> string list option" where
  "splitTextIntoChunks text maxChunkLength =
     (if text = [] then Some []
      else if length text \<le> maxChunkLength then Some [text]
      else chunkLoop text maxChunkLength 0 [])"

section \<open>Numbers, errors and the collaborators outside the repository\<close>

text \<open>
  A JavaScript number is modelled as an exact real, with one more value for a result
  that is not a finite number: \<open>NaN\<close> stands for \<^verbatim>\<open>NaN\<close> and for the infinities. The
  rounding of IEEE-754 doubles is modelled where the digits of a result are read, in
  the hash of \<^verbatim>\<open>generateDeterministicEmbedding\<close> (the integer doubles below); the
  other arithmetic is exact. A read past the end of an array gives \<^verbatim>\<open>undefined\<close>,
  which arithmetic turns into \<^verbatim>\<open>NaN\<close>.
\<close>

datatype number = Num real | NaN

fun nadd :: "number \<Rightarrow> number \<Rightarrow> number" where
  "nadd (Num a) (Num b) = Num (a + b)"
| "nadd _ _ = NaN"

fun nsub :: "number \<Rightarrow> number \<Rightarrow> number" where
  "nsub (Num a) (Num b) = Num (a - b)"
| "nsub _ _ = NaN"

fun nmul :: "number \<Rightarrow> number \<Rightarrow> number" where
  "nmul (Num a) (Num b) = Num (a * b)"
| "nmul _ _ = NaN"

fun ndiv :: "number \<Rightarrow> number \<Rightarrow> number" where
  "ndiv (Num a) (Num b) = (if b = 0 then NaN else Num (a / b))"
| "ndiv _ _ = NaN"

fun nsqrt :: "number \<Rightarrow> number" where
  "nsqrt (Num a) = (if a < 0 then NaN else Num (sqrt a))"
| "nsqrt NaN = NaN"

definition numberAt :: "number list \<Rightarrow> nat \<Rightarrow> number" where
  "numberAt xs i = (if i < length xs then xs ! i else NaN)"

definition charCodeAt :: "string \<Rightarrow> nat \<Rightarrow> number" where
  "charCodeAt s i = (if i < length s then Num (real (of_char (s ! i) :: nat)) else NaN)"

text \<open>
  The doubles that hold a non-negative integer, with \<open>None\<close> for \<^verbatim>\<open>Infinity\<close>. The sum
  and the product of two of them are the exact results rounded to the nearest double:
  to a significand of 53 bits, a tie going to the even significand, and to
  \<^verbatim>\<open>Infinity\<close> when the rounded result reaches \<open>2\<^sup>1\<^sup>0\<^sup>2\<^sup>4\<close>. An integer below
  \<open>2\<^sup>5\<^sup>3\<close> is a double and is not rounded.
\<close>

fun bitLength :: "nat \<Rightarrow> nat" where
  "bitLength n = (if n = 0 then 0 else 1 + bitLength (n div 2))"

declare bitLength.simps [simp del]

definition roundToDouble :: "nat \<Rightarrow> nat option" where
  "roundToDouble n =
     (let e = bitLength n - 53;
          q = n div 2 ^ e;
          r = n mod 2 ^ e;
          significand = (if 2 * r < 2 ^ e \<or> (2 * r = 2 ^ e \<and> even q) then q else q + 1)
      in if significand * 2 ^ e < 2 ^ 1024 then Some (significand * 2 ^ e) else None)"

fun dadd :: "nat option \<Rightarrow> nat option \<Rightarrow> nat option" where
  "dadd (Some a) (Some b) = roundToDouble (a + b)"
| "dadd _ _ = None"

fun dmul :: "nat option \<Rightarrow> nat option \<Rightarrow> nat option" where
  "dmul (Some a) (Some b) = roundToDouble (a * b)"
| "dmul _ _ = None"

definition integerNumber :: "nat option \<Rightarrow> number" where
  "integerNumber x = (case x of Some n \<Rightarrow> Num (real n) | None \<Rightarrow> NaN)"

text \<open>An exception is an \<^verbatim>\<open>Error\<close> object; only its message is ever read.\<close>

datatype error = Error (message: string)

text \<open>\<^verbatim>\<open>error.message || "Unknown error"\<close>: the empty message is falsy.\<close>

definition messageOrUnknown :: "error \<Rightarrow> string" where
  "messageOrUnknown e = (if message e = [] then ''Unknown error'' else message e)"

text \<open>
  What the code calls and the repository does not define: the platform, the
  JavaScript runtime, the Expo modules and the texts of RxDB. They are the fields of a
  record that every function of the model takes. A call that can reject or throw
  returns a sum. \<open>pluginMissing\<close> is the message of the error that RxDB throws when a
  method is called whose plugin is not registered.
\<close>

record runtime =
  platformIsIOS :: bool
  extname :: "string \<Rightarrow> string"
  decodeURIComponent :: "string \<Rightarrow> error + string"
  numberToString :: "number \<Rightarrow> string"
  readAsStringAsync :: "string \<Rightarrow> error + string"
  getThumbnailAsync :: "string \<Rightarrow> nat \<Rightarrow> error + string"
  manipulateAsync :: "string \<Rightarrow> error + string"
  deleteAsync :: "string \<Rightarrow> error + unit"
  dateNow :: "nat \<Rightarrow> nat"
  toISOString :: "nat \<Rightarrow> string"
  pluginMissing :: "string \<Rightarrow> string"

section \<open>averageEmbeddings\<close>

fun averageEmbeddings :: "number list list \<Rightarrow> error + number list" where
  "averageEmbeddings [] = Inl (Error ''No embeddings to average'')"
| "averageEmbeddings [e] = Inr e"
| "averageEmbeddings embeddings =
     (let dimension = length (hd embeddings);
          result = replicate dimension (Num 0);
          result = fold (\<lambda>embedding result.
                      map (\<lambda>i. nadd (result ! i) (numberAt embedding i)) [0..<dimension])
                    embeddings result;
          result = map (\<lambda>r. ndiv r (Num (real (length embeddings)))) result
      in Inr result)"

section \<open>modelService\<close>

text \<open>
  \<^verbatim>\<open>input.split("")\<close> gives the code units of the input. The hash is a sum of
  integers in doubles: every power \<^verbatim>\<open>Math.pow(31, i % 10)\<close> is an integer below
  \<open>2\<^sup>5\<^sup>3\<close>, each product and each sum is rounded, and from about 40 code units on
  the sum passes \<open>2\<^sup>5\<^sup>3\<close> and is no longer the exact one. The remainder
  \<^verbatim>\<open>i % hashStr.length\<close> is \<^verbatim>\<open>NaN\<close> for the empty string, where \<^verbatim>\<open>charCodeAt\<close> reads
  index 0 and finds nothing: \<^term>\<open>charCodeAt\<close> of the empty string is \<open>NaN\<close> at every
  index.
\<close>

definition generateDeterministicEmbedding :: "runtime \<Rightarrow> string \<Rightarrow> nat \<Rightarrow> number list" where
  "generateDeterministicEmbedding rt input dimensions =
     (let hash = fold (\<lambda>(i, char) acc. dadd acc (dmul (Some (of_char char)) (Some (31 ^ (i mod 10)))))
                   (enumerate 0 input) (Some 0);
          hashStr = numberToString rt (integerNumber hash);
          embedding = map (\<lambda>i.
                        let seed = nsub (ndiv (charCodeAt hashStr (i mod length hashStr)) (Num 255))
                                     (Num 0.5);
                            position = real i / real dimensions
                        in nmul seed (Num (sin (position * pi))))
                      [0..<dimensions];
          magnitude = nsqrt (fold (\<lambda>val sum. nadd sum (nmul val val)) embedding (Num 0))
      in map (\<lambda>val. ndiv val magnitude) embedding)"

text \<open>The module variables of the services: the two sessions and the collection.\<close>

datatype ItemType = TextItem | ImageItem | VideoItem

text \<open>
  The field \<^verbatim>\<open>embedding\<close> is declared \<^verbatim>\<open>number[]\<close>, and the code can put
  \<^verbatim>\<open>undefined\<close> there (\<^verbatim>\<open>embeddings[0]\<close> of an empty array).
\<close>

datatype embedding = Undefined | Vector "number list"

record ItemDocType =
  docId :: string
  path :: string
  docType :: ItemType
  docEmbedding :: embedding
  dateAdded :: string

record state =
  textSession :: bool
  visionSession :: bool
  itemsCollection :: "ItemDocType list option"
  clockReads :: nat

definition EMBEDDING_DIM :: nat where
  "EMBEDDING_DIM = 768"

definition getTextEmbedding :: "runtime \<Rightarrow> state \<Rightarrow> string \<Rightarrow> error + number list" where
  "getTextEmbedding rt st text =
     (if \<not> textSession st then Inl (Error ''Text model not initialized'')
      else Inr (generateDeterministicEmbedding rt text EMBEDDING_DIM))"

definition getVisionEmbedding :: "runtime \<Rightarrow> state \<Rightarrow> number list \<Rightarrow> error + number list" where
  "getVisionEmbedding rt st imageData =
     (if \<not> visionSession st then Inl (Error ''Vision model not initialized'')
      else
        (let imageHash = fold (\<lambda>(i, val) acc. nadd acc (nmul val (Num (real (i + 1)))))
                           (enumerate 0 (take 20 imageData)) (Num 0)
         in Inr (generateDeterministicEmbedding rt (numberToString rt imageHash) EMBEDDING_DIM)))"

section \<open>embeddingService\<close>

text \<open>
  \<^verbatim>\<open>chunk.trim()\<close> removes the white space and the line terminators at both ends; among
  the code units below 256 these are the six below and the no-break space.
\<close>

definition isWhiteSpace :: "char \<Rightarrow> bool" where
  "isWhiteSpace c = ((of_char c :: nat) \<in> {0x09, 0x0A, 0x0B, 0x0C, 0x0D, 0x20, 0xA0})"

definition trim :: "string \<Rightarrow> string" where
  "trim s = rev (dropWhile isWhiteSpace (rev (dropWhile isWhiteSpace s)))"

text \<open>
  \<^verbatim>\<open>try { body } catch (error) { throw new Error(prefix + (error.message || "Unknown error")) }\<close>
\<close>

definition rethrowAs :: "string \<Rightarrow> error + 'a \<Rightarrow> error + 'a" where
  "rethrowAs prefix body =
     (case body of
        Inl e \<Rightarrow> Inl (Error (prefix @ messageOrUnknown e))
      | Inr r \<Rightarrow> Inr r)"

text \<open>
  \<^verbatim>\<open>splitTextIntoChunks(content)\<close> with the default maximum of 2048. The loop returns
  for every positive maximum (lemma \<open>chunkLoop_returns\<close>), so the second case is never
  taken.
\<close>

definition defaultChunks :: "string \<Rightarrow> string list" where
  "defaultChunks content =
     (case splitTextIntoChunks content 2048 of Some chunks \<Rightarrow> chunks | None \<Rightarrow> [])"

text \<open>The loop over the chunks; a throw of \<^verbatim>\<open>getTextEmbedding\<close> leaves it.\<close>

fun embedChunks ::
  "runtime \<Rightarrow> state \<Rightarrow> string list \<Rightarrow> number list list \<Rightarrow> error + number list list" where
  "embedChunks rt st [] embeddings = Inr embeddings"
| "embedChunks rt st (chunk # chunks) embeddings =
     (if length (trim chunk) > 0 then
        (case getTextEmbedding rt st chunk of
           Inl e \<Rightarrow> Inl e
         | Inr embedding \<Rightarrow> embedChunks rt st chunks (embeddings @ [embedding]))
      else embedChunks rt st chunks embeddings)"

text \<open>The result type \<^verbatim>\<open>EmbeddingResult\<close>, an object with the one field \<^verbatim>\<open>embedding\<close>.\<close>

datatype EmbeddingResult = EmbeddingResult embedding

definition processTextFile :: "runtime \<Rightarrow> state \<Rightarrow> string \<Rightarrow> error + EmbeddingResult" where
  "processTextFile rt st filePath =
     rethrowAs ''Failed to process text file: ''
       (case readAsStringAsync rt filePath of
          Inl e \<Rightarrow> Inl e
        | Inr content \<Rightarrow>
            (case embedChunks rt st (defaultChunks content) [] of
               Inl e \<Rightarrow> Inl e
             | Inr embeddings \<Rightarrow>
                 if length embeddings > 1 then
                   (case averageEmbeddings embeddings of
                      Inl e \<Rightarrow> Inl e
                    | Inr finalEmbedding \<Rightarrow> Inr (EmbeddingResult (Vector finalEmbedding)))
                 else
                   Inr (EmbeddingResult
                     (case embeddings of [] \<Rightarrow> Undefined | e # _ \<Rightarrow> Vector e))))"

text \<open>
  \<^verbatim>\<open>preprocessImage\<close>: the tensor it returns is the placeholder of the source, 0.5
  everywhere, whatever the image.
\<close>

definition placeholderPixelData :: "number list" where
  "placeholderPixelData = replicate (3 * 224 * 224) (Num 0.5)"

definition preprocessImage :: "runtime \<Rightarrow> string \<Rightarrow> error + number list" where
  "preprocessImage rt imagePath =
     (case (case manipulateAsync rt imagePath of
              Inl e \<Rightarrow> Inl e
            | Inr manipUri \<Rightarrow>
                (let pixelData = placeholderPixelData in
                 if matchesAt manipUri ''file://'' 0 then
                   (case deleteAsync rt manipUri of
                      Inl e \<Rightarrow> Inl e
                    | Inr _ \<Rightarrow> Inr pixelData)
                 else Inr pixelData))
      of Inl e \<Rightarrow> Inl (Error (''Failed to preprocess image: '' @ message e))
       | Inr r \<Rightarrow> Inr r)"

definition processImageFile :: "runtime \<Rightarrow> state \<Rightarrow> string \<Rightarrow> error + EmbeddingResult" where
  "processImageFile rt st filePath =
     rethrowAs ''Failed to process image file: ''
       (case preprocessImage rt filePath of
          Inl e \<Rightarrow> Inl e
        | Inr processedImageData \<Rightarrow>
            (case getVisionEmbedding rt st processedImageData of
               Inl e \<Rightarrow> Inl e
             | Inr embedding \<Rightarrow> Inr (EmbeddingResult (Vector embedding))))"

text \<open>
  One pass of the frame loop of \<^verbatim>\<open>processVideoFile\<close>, the body of its inner
  \<^verbatim>\<open>try\<close>: the time is \<^verbatim>\<open>Math.floor((durationMs / frameCount) * i)\<close> with the fallback
  duration of 10000 ms and 10 frames.
\<close>

definition frameEmbedding :: "runtime \<Rightarrow> state \<Rightarrow> string \<Rightarrow> nat \<Rightarrow> error + number list" where
  "frameEmbedding rt st filePath i =
     (let time = (10000 div 10) * i in
      case getThumbnailAsync rt filePath time of
        Inl e \<Rightarrow> Inl e
      | Inr frameUri \<Rightarrow>
          (case preprocessImage rt frameUri of
             Inl e \<Rightarrow> Inl e
           | Inr processedFrameData \<Rightarrow> getVisionEmbedding rt st processedFrameData))"

definition processVideoFile :: "runtime \<Rightarrow> state \<Rightarrow> string \<Rightarrow> error + EmbeddingResult" where
  "processVideoFile rt st filePath =
     rethrowAs ''Failed to process video file: ''
       (let frameCount = 10;
            embeddings = fold (\<lambda>i embeddings.
                           case frameEmbedding rt st filePath i of
                             Inl err \<Rightarrow> embeddings
                           | Inr embedding \<Rightarrow> embeddings @ [embedding])
                         [0..<frameCount] []
        in if length embeddings = 0
           then Inl (Error ''No frames could be processed from video.'')
           else (case averageEmbeddings embeddings of
                   Inl e \<Rightarrow> Inl e
                 | Inr finalEmbedding \<Rightarrow> Inr (EmbeddingResult (Vector finalEmbedding))))"

section \<open>databaseService\<close>

text \<open>
  The RxDB collection is modelled as the list of its documents in insertion order,
  with at most one document for each primary key. The storage is created without a
  validating wrapper, so an insert checks nothing of \<^verbatim>\<open>itemsSchema\<close>; that schema
  puts no bound on the length of \<^verbatim>\<open>embedding\<close> in any case. The variable
  \<^verbatim>\<open>itemsCollection\<close> is \<^verbatim>\<open>null\<close> until \<^verbatim>\<open>initializeDatabase\<close> has run. The calls
  \<^verbatim>\<open>findOne\<close>, \<^verbatim>\<open>insert\<close> and \<^verbatim>\<open>find\<close> on the list do not throw.
\<close>

text \<open>
  The plugins that the module registers with \<^verbatim>\<open>addRxPlugin\<close>. The method
  \<^verbatim>\<open>update\<close> of a document belongs to the update plugin of RxDB
  (\<^verbatim>\<open>rxdb/plugins/update\<close>), which the module neither imports nor registers: the
  method of the document then throws the error of a missing plugin and changes
  nothing.
\<close>

datatype plugin =
  RxDBQueryBuilderPlugin | RxDBMigrationPlugin | RxDBLocalDocumentsPlugin | RxDBUpdatePlugin

definition registeredPlugins :: "plugin list" where
  "registeredPlugins = [RxDBQueryBuilderPlugin, RxDBMigrationPlugin, RxDBLocalDocumentsPlugin]"

text \<open>\<^verbatim>\<open>existing.update({ $set: { embedding, dateAdded } })\<close>\<close>

definition documentUpdate ::
  "runtime \<Rightarrow> ItemDocType \<Rightarrow> embedding \<Rightarrow> string \<Rightarrow> error + ItemDocType" where
  "documentUpdate rt existing newEmbedding newDate =
     (if RxDBUpdatePlugin \<in> set registeredPlugins
      then Inr (existing\<lparr>docEmbedding := newEmbedding, dateAdded := newDate\<rparr>)
      else Inl (Error (pluginMissing rt ''update'')))"

fun replaceFirst :: "('a \<Rightarrow> bool) \<Rightarrow> 'a \<Rightarrow> 'a list \<Rightarrow> 'a list" where
  "replaceFirst p y [] = []"
| "replaceFirst p y (x # xs) = (if p x then y # xs else x # replaceFirst p y xs)"

text \<open>
  \<^verbatim>\<open>storeEmbedding\<close>. Its \<^verbatim>\<open>catch\<close> throws a new error,
  \<^verbatim>\<open>"Failed to store embedding: " + error.message\<close>.
\<close>

definition storeEmbedding ::
  "runtime \<Rightarrow> state \<Rightarrow> ItemDocType \<Rightarrow> (error + ItemDocType) \<times> state" where
  "storeEmbedding rt st data =
     (case itemsCollection st of
        None \<Rightarrow> (Inl (Error ''Database not initialized''), st)
      | Some docs \<Rightarrow>
          (case find (\<lambda>d. docId d = docId data) docs of
             Some existing \<Rightarrow>
               (case documentUpdate rt existing (docEmbedding data) (dateAdded data) of
                  Inl e \<Rightarrow> (Inl (Error (''Failed to store embedding: '' @ message e)), st)
                | Inr updated \<Rightarrow>
                    (Inr updated,
                     st\<lparr>itemsCollection :=
                          Some (replaceFirst (\<lambda>d. docId d = docId data) updated docs)\<rparr>))
           | None \<Rightarrow> (Inr data, st\<lparr>itemsCollection := Some (docs @ [data])\<rparr>)))"

subsection \<open>The vector query of the persistence engine\<close>

text \<open>
  \<^verbatim>\<open>searchByVector\<close> sends the query
  \<^verbatim>\<open>find({selector: {embedding: {$vector: ...}}, limit})\<close> to the persistence engine,
  which is not part of the repository. The three definitions that model the engine
  follow section 4.6 of the specification.
\<close>

text \<open>The finite components of a vector, when all of them are finite.\<close>

fun finiteValues :: "number list \<Rightarrow> real list option" where
  "finiteValues [] = Some []"
| "finiteValues (NaN # xs) = None"
| "finiteValues (Num x # xs) = map_option (Cons x) (finiteValues xs)"

text \<open>
  Modelled from the spec: the distance of the persistence engine's vector query, which
  is not under the sources. The specification: "computes Euclidean distance between
  the query vector and every stored embedding". Where the distance is not a number (an
  embedding that is undefined, holds \<^verbatim>\<open>NaN\<close> or has another dimension than the query)
  there is none.
\<close>

definition euclideanDistance :: "number list \<Rightarrow> embedding \<Rightarrow> real option" where
  "euclideanDistance query e =
     (case e of
        Undefined \<Rightarrow> None
      | Vector v \<Rightarrow>
          (case (finiteValues query, finiteValues v) of
             (Some q, Some x) \<Rightarrow>
               if length q = length x
               then Some (sqrt (\<Sum>(a, b) \<leftarrow> zip q x. (a - b)\<^sup>2))
               else None
           | _ \<Rightarrow> None))"

text \<open>
  Modelled from the spec: the selection of the persistence engine's vector query, which
  is not under the sources. The specification: "retains only records within
  \<^verbatim>\<open>distanceThreshold\<close>". A record with no distance is within no threshold.
\<close>

definition withinDistance :: "number list \<Rightarrow> real \<Rightarrow> ItemDocType \<Rightarrow> (ItemDocType \<times> real) list" where
  "withinDistance query maxDistance d =
     (case euclideanDistance query (docEmbedding d) of
        None \<Rightarrow> []
      | Some distance \<Rightarrow> if distance \<le> maxDistance then [(d, distance)] else [])"

text \<open>
  Modelled from the spec: the persistence engine's vector query, which is not under the
  sources. The specification: "orders ascending by distance (closest first), truncates
  to \<^verbatim>\<open>limit\<close>"; "ties in distance are broken by insertion order (stable)". Each
  document returned carries its distance in \<^verbatim>\<open>_distance\<close>.
\<close>

definition vectorFind ::
  "ItemDocType list \<Rightarrow> number list \<Rightarrow> real \<Rightarrow> nat \<Rightarrow> (ItemDocType \<times> number option) list" where
  "vectorFind docs query maxDistance limit =
     map (\<lambda>(d, distance). (d, Some (Num distance)))
       (take limit (sort_key snd (concat (map (withinDistance query maxDistance) docs))))"

text \<open>
  \<^verbatim>\<open>searchByVector\<close> itself, from the source: it reads the distance of each document
  the engine returns from \<^verbatim>\<open>_distance\<close>; the score is \<^verbatim>\<open>1 - distance / threshold\<close>
  when that is a number, and 1 otherwise.
\<close>

record SearchResult =
  doc :: ItemDocType
  score :: number

definition searchByVector ::
  "state \<Rightarrow> number list \<Rightarrow> nat \<Rightarrow> real \<Rightarrow> error + SearchResult list" where
  "searchByVector st queryEmbedding limit threshold =
     (case itemsCollection st of
        None \<Rightarrow> Inl (Error ''Database not initialized'')
      | Some docs \<Rightarrow>
          Inr (map (\<lambda>(d, distance).
                     \<lparr>doc = d,
                      score = (case distance of
                                 Some n \<Rightarrow> nsub (Num 1) (ndiv n (Num threshold))
                               | None \<Rightarrow> Num 1)\<rparr>)
                 (vectorFind docs queryEmbedding threshold limit)))"

section \<open>fileUtils\<close>

text \<open>
  \<^verbatim>\<open>toLowerCase\<close> on the code units below 256: the letters A to Z and the capital
  letters of Latin-1.
\<close>

definition toLowerChar :: "char \<Rightarrow> char" where
  "toLowerChar c =
     (let n = (of_char c :: nat) in
      if (0x41 \<le> n \<and> n \<le> 0x5A) \<or> (0xC0 \<le> n \<and> n \<le> 0xDE \<and> n \<noteq> 0xD7)
      then char_of (n + 0x20) else c)"

definition toLowerCase :: "string \<Rightarrow> string" where
  "toLowerCase s = map toLowerChar s"

definition startsWith :: "string \<Rightarrow> string \<Rightarrow> bool" where
  "startsWith s p = matchesAt s p 0"


definition getFileExtension :: "runtime \<Rightarrow> string \<Rightarrow> string" where
  "getFileExtension rt filename = extname rt filename"

definition mimeTypes :: "(string \<times> string) list" where
  "mimeTypes =
     [(''.txt'', ''text/plain''), (''.md'', ''text/markdown''), (''.rtf'', ''text/rtf''),
      (''.jpg'', ''image/jpeg''), (''.jpeg'', ''image/jpeg''), (''.png'', ''image/png''),
      (''.gif'', ''image/gif''), (''.webp'', ''image/webp''), (''.mp4'', ''video/mp4''),
      (''.mov'', ''video/quicktime''), (''.avi'', ''video/x-msvideo''),
      (''.mkv'', ''video/x-matroska'')]"

definition getMimeType :: "runtime \<Rightarrow> string \<Rightarrow> string option" where
  "getMimeType rt filename =
     (let ext = toLowerCase (getFileExtension rt filename) in map_of mimeTypes ext)"

section \<open>fileService\<close>

record FileObject =
  uri :: string
  ftype :: "string option"
  name :: string
  fsize :: "nat option"

record ProcessResult =
  file' :: FileObject
  success :: "bool option"
  error :: "string option"

text \<open>\<^verbatim>\<open>file.type || fallback\<close>: \<^verbatim>\<open>null\<close> and the empty string are falsy.\<close>

definition typeOr :: "FileObject \<Rightarrow> 'a \<Rightarrow> (string \<Rightarrow> 'a) \<Rightarrow> 'a" where
  "typeOr file fallback use =
     (case ftype file of
        None \<Rightarrow> fallback
      | Some t \<Rightarrow> if t = [] then fallback else use t)"

definition determineFileType :: "runtime \<Rightarrow> FileObject \<Rightarrow> ItemType option" where
  "determineFileType rt file =
     (let mimeType = typeOr file (getMimeType rt (name file)) Some;
          byMimeType =
            (case mimeType of
               None \<Rightarrow> None
             | Some m \<Rightarrow>
                 if startsWith m ''text/'' then Some TextItem
                 else if startsWith m ''image/'' then Some ImageItem
                 else if startsWith m ''video/'' then Some VideoItem
                 else None)
      in case byMimeType of
           Some t \<Rightarrow> Some t
         | None \<Rightarrow>
             (let extension = toLowerCase (getFileExtension rt (name file)) in
              if extension \<in> set [''.txt'', ''.md'', ''.rtf''] then Some TextItem
              else if extension \<in> set [''.jpg'', ''.jpeg'', ''.png'', ''.gif'', ''.webp'']
              then Some ImageItem
              else if extension \<in> set [''.mp4'', ''.mov'', ''.avi'', ''.mkv'']
              then Some VideoItem
              else None))"

text \<open>
  \<^verbatim>\<open>new Date()\<close>: the clock is read through the runtime, the \<open>k\<close>-th reading being
  \<^term>\<open>dateNow rt k\<close>, and the state counts the readings.
\<close>

definition readClock :: "runtime \<Rightarrow> state \<Rightarrow> nat \<times> state" where
  "readClock rt st = (dateNow rt (clockReads st), st\<lparr>clockReads := Suc (clockReads st)\<rparr>)"

definition isAlphaNumeric :: "char \<Rightarrow> bool" where
  "isAlphaNumeric c =
     (let n = (of_char c :: nat) in
      (0x61 \<le> n \<and> n \<le> 0x7A) \<or> (0x41 \<le> n \<and> n \<le> 0x5A) \<or> (0x30 \<le> n \<and> n \<le> 0x39))"

definition generateId :: "runtime \<Rightarrow> state \<Rightarrow> string \<Rightarrow> string \<times> state" where
  "generateId rt st filePath =
     (let (time, st') = readClock rt st
      in (filter isAlphaNumeric filePath @ ''_'' @ numberToString rt (Num (real time)), st'))"

text \<open>\<^verbatim>\<open>s.replace(pat, "")\<close> with a string pattern: the first occurrence is removed.\<close>

fun removeFirst :: "string \<Rightarrow> string \<Rightarrow> string" where
  "removeFirst pat [] = []"
| "removeFirst pat (c # cs) =
     (if matchesAt (c # cs) pat 0 then drop (length pat) (c # cs) else c # removeFirst pat cs)"

text \<open>
  \<^verbatim>\<open>processFile\<close>. Its \<^verbatim>\<open>catch\<close> logs the error and throws it again unchanged. The
  fields of the stored document are evaluated in the order of the source: the id,
  which reads the clock, and last the date, which reads it again.
\<close>

definition processFile :: "runtime \<Rightarrow> state \<Rightarrow> FileObject \<Rightarrow> (error + bool) \<times> state" where
  "processFile rt st file =
     (case (if platformIsIOS rt
            then decodeURIComponent rt (removeFirst ''file://'' (uri file))
            else Inr (uri file)) of
        Inl e \<Rightarrow> (Inl e, st)
      | Inr filePath \<Rightarrow>
          (case determineFileType rt file of
             None \<Rightarrow>
               (Inl (Error (''Unsupported file type: '' @ typeOr file (name file) (\<lambda>t. t))), st)
           | Some fileType \<Rightarrow>
               (case (case fileType of
                        TextItem \<Rightarrow> processTextFile rt st filePath
                      | ImageItem \<Rightarrow> processImageFile rt st filePath
                      | VideoItem \<Rightarrow> processVideoFile rt st filePath) of
                  Inl e \<Rightarrow> (Inl e, st)
                | Inr (EmbeddingResult processedEmbedding) \<Rightarrow>
                    (let (newId, st1) = generateId rt st filePath;
                         (time, st2) = readClock rt st1;
                         (stored, st3) =
                           storeEmbedding rt st2
                             \<lparr>docId = newId, path = filePath, docType = fileType,
                              docEmbedding = processedEmbedding,
                              dateAdded = toISOString rt time\<rparr>
                     in case stored of
                          Inl e \<Rightarrow> (Inl e, st3)
                        | Inr _ \<Rightarrow> (Inr True, st3)))))"

text \<open>
  \<^verbatim>\<open>processFolderFiles\<close>. The progress callback is optional; when it is given, the
  model records the arguments of each of its calls.
\<close>

definition resultOf :: "FileObject \<Rightarrow> error + bool \<Rightarrow> ProcessResult" where
  "resultOf f outcome =
     (case outcome of
        Inr ok \<Rightarrow> \<lparr>file' = f, success = Some ok, error = None\<rparr>
      | Inl e \<Rightarrow> \<lparr>file' = f, success = None, error = Some (message e)\<rparr>)"

record batch =
  results :: "ProcessResult list"
  processedCount :: nat
  progressCalls :: "(nat \<times> nat) list"
  finalState :: state

fun processFolderLoop ::
  "runtime \<Rightarrow> bool \<Rightarrow> nat \<Rightarrow> FileObject list \<Rightarrow> batch \<Rightarrow> batch" where
  "processFolderLoop rt progressCallback n [] b = b"
| "processFolderLoop rt progressCallback n (f # files) b =
     (let (outcome, st') = processFile rt (finalState b) f;
          b1 = b\<lparr>results := results b @ [resultOf f outcome], finalState := st'\<rparr>;
          b2 = b1\<lparr>processedCount := processedCount b1 + 1\<rparr>;
          b3 = (if progressCallback
                then b2\<lparr>progressCalls := progressCalls b2 @ [(processedCount b2, n)]\<rparr>
                else b2)
      in processFolderLoop rt progressCallback n files b3)"

definition processFolderFiles :: "runtime \<Rightarrow> state \<Rightarrow> FileObject list \<Rightarrow> bool \<Rightarrow> batch" where
  "processFolderFiles rt st files progressCallback =
     processFolderLoop rt progressCallback (length files) files
       \<lparr>results = [], processedCount = 0, progressCalls = [], finalState = st\<rparr>"

subsection \<open>scanFolderForFiles\<close>








section \<open>Notions of the specification and examples\<close>

subsection \<open>A store and two records with one id\<close>

definition emptyStore :: state where
  "emptyStore =
     \<lparr>textSession = True, visionSession = True, itemsCollection = Some [], clockReads = 0\<rparr>"

definition noteV1 :: ItemDocType where
  "noteV1 =
     \<lparr>docId = ''docsnotetxt_1700000000000'', path = ''/docs/note.txt'', docType = TextItem,
      docEmbedding = Vector [Num 1, Num 0, Num 0], dateAdded = ''2023-11-14T22:13:20.000Z''\<rparr>"

definition noteV2 :: ItemDocType where
  "noteV2 =
     \<lparr>docId = ''docsnotetxt_1700000000000'', path = ''/docs/note.txt'', docType = TextItem,
      docEmbedding = Vector [Num 0, Num 1, Num 0], dateAdded = ''2023-11-14T22:13:21.000Z''\<rparr>"

text \<open>An embedding has dimension \<open>n\<close> when it is a vector of \<open>n\<close> components.\<close>

definition hasDimension :: "nat \<Rightarrow> embedding \<Rightarrow> bool" where
  "hasDimension n e = (case e of Vector v \<Rightarrow> length v = n | Undefined \<Rightarrow> False)"

subsection \<open>A runtime for the examples\<close>

text \<open>
  What \<^verbatim>\<open>Number.prototype.toString\<close> gives for a double that holds a non-negative
  integer below \<open>10\<^sup>2\<^sup>1\<close>: all the decimal digits of the integer when it is below
  \<open>2\<^sup>5\<^sup>3\<close>, and otherwise the fewest digits that still read back as the same double
  (the nearer of two candidates, the even one at equal distance), followed by zeros.
  \<open>shortestDigits n z\<close> tries \<open>z\<close> final zeros, then fewer. The examples render no other
  number, and the example runtime renders the integer part of any other.
\<close>

definition digitChar :: "nat \<Rightarrow> char" where
  "digitChar d = ''0123456789'' ! d"

fun decimalDigits :: "nat \<Rightarrow> string" where
  "decimalDigits n =
     (if n < 10 then [digitChar n] else decimalDigits (n div 10) @ [digitChar (n mod 10)])"

declare decimalDigits.simps [simp del]

fun shortestDigits :: "nat \<Rightarrow> nat \<Rightarrow> string" where
  "shortestDigits n 0 = decimalDigits n"
| "shortestDigits n (Suc z) =
     (let p = 10 ^ Suc z;
          lo = n div p;
          hi = lo + 1;
          below = (roundToDouble (lo * p) = Some n);
          above = (roundToDouble (hi * p) = Some n)
      in if below \<and> (\<not> above \<or> n - lo * p < hi * p - n \<or> (n - lo * p = hi * p - n \<and> even lo))
         then decimalDigits lo @ replicate (Suc z) CHR ''0''
         else if above then decimalDigits hi @ replicate (Suc z) CHR ''0''
         else shortestDigits n z)"

definition exampleNumberToString :: "number \<Rightarrow> string" where
  "exampleNumberToString x =
     (case x of
        NaN \<Rightarrow> ''NaN''
      | Num r \<Rightarrow>
          (let n = nat \<lfloor>r\<rfloor> in
           if n < 2 ^ 53 then decimalDigits n
           else shortestDigits n (length (decimalDigits n) - 1)))"

text \<open>\<^verbatim>\<open>path.extname\<close> on a plain file name: from its last dot, unless that is its first
  character or there is none.\<close>

definition exampleExtname :: "string \<Rightarrow> string" where
  "exampleExtname fileName =
     (let dot = lastIndexOf fileName ''.'' (length fileName)
      in if dot \<le> 0 then [] else drop (nat dot) fileName)"

text \<open>A text of 2049 code units, one more than the default maximum chunk length.\<close>

definition longText :: string where
  "longText = replicate 2048 CHR ''a'' @ ''b''"

definition exampleFiles :: "(string \<times> string) list" where
  "exampleFiles =
     [(''/docs/empty.txt'', []),
      (''/docs/blank.txt'', ''  \<newline> ''),
      (''/docs/hello.txt'', ''hello world''),
      (''/docs/long.txt'', longText)]"

text \<open>
  Text files are those of \<^term>\<open>exampleFiles\<close>; the first seven frames of one video can
  be extracted and no frame of any other; resizing an image always succeeds. The text
  of the missing plugin is the first sentence of the one of RxDB.
\<close>

definition exampleRuntime :: runtime where
  "exampleRuntime =
     \<lparr>platformIsIOS = False,
      extname = exampleExtname,
      decodeURIComponent = Inr,
      numberToString = exampleNumberToString,
      readAsStringAsync = (\<lambda>p. case map_of exampleFiles p of
                                  None \<Rightarrow> Inl (Error ''File not found'')
                                | Some content \<Rightarrow> Inr content),
      getThumbnailAsync = (\<lambda>p time. if p = ''/clips/seven.mp4'' \<and> time < 7000
                                       then Inr ''file:///cache/frame.jpg''
                                       else Inl (Error ''Could not generate thumbnail'')),
      manipulateAsync = (\<lambda>p. Inr ''file:///cache/resized.jpg''),
      deleteAsync = (\<lambda>p. Inr ()),
      dateNow = (\<lambda>k. 1700000000000 + k),
      toISOString = decimalDigits,
      pluginMissing =
        (\<lambda>key. ''You are using a function which must be overwritten by a plugin.'')\<rparr>"

subsection \<open>The embedding is a unit vector\<close>


definition seedOf :: "string \<Rightarrow> nat \<Rightarrow> real" where
  "seedOf hashStr i = real (of_char (hashStr ! (i mod length hashStr)) :: nat) / 255 - 0.5"

definition rawEmbedding :: "string \<Rightarrow> nat \<Rightarrow> real list" where
  "rawEmbedding hashStr dimensions =
     map (\<lambda>i. seedOf hashStr i * sin (real i / real dimensions * pi)) [0..<dimensions]"

definition hashOf :: "string \<Rightarrow> number" where
  "hashOf input =
     integerNumber
       (fold (\<lambda>(i, char) acc. dadd acc (dmul (Some (of_char char)) (Some (31 ^ (i mod 10)))))
          (enumerate 0 input) (Some 0))"


subsection \<open>The mean of vectors and the frames of a video\<close>

text \<open>
  The element-wise arithmetic mean of vectors of one length, as the specification
  words it, and the successful results among a list of attempts, in their order.
\<close>

definition elementwiseMean :: "real list list \<Rightarrow> real list" where
  "elementwiseMean vs =
     map (\<lambda>i. (\<Sum>v\<leftarrow>vs. v ! i) / real (length vs)) [0..<length (hd vs)]"

fun successes :: "(error + 'a) list \<Rightarrow> 'a list" where
  "successes [] = []"
| "successes (Inl e # rs) = successes rs"
| "successes (Inr x # rs) = x # successes rs"

text \<open>
  The embedding of the placeholder tensor of \<^term>\<open>preprocessImage\<close>, whose first 20
  values give the image hash 105, and a vector divided by its own norm.
\<close>

definition placeholderEmbedding :: "runtime \<Rightarrow> number list" where
  "placeholderEmbedding rt =
     generateDeterministicEmbedding rt (numberToString rt (Num 105)) EMBEDDING_DIM"

definition normalized :: "real list \<Rightarrow> real list" where
  "normalized xs = map (\<lambda>x. x / sqrt (\<Sum>y\<leftarrow>xs. y\<^sup>2)) xs"

subsection \<open>The embeddings that the pipeline stores\<close>


definition helloVector :: "real list" where
  "helloVector = normalized (rawEmbedding ''2955869306693316'' 768)"






subsection \<open>The batch, file by file\<close>

text \<open>
  The state in which each file of a batch is processed, and the outcome recorded for a
  file processed in a given state; then two files for the examples, and the states in
  which the models and the store are initialised.
\<close>

fun batchStates :: "runtime \<Rightarrow> state \<Rightarrow> FileObject list \<Rightarrow> state list" where
  "batchStates rt st [] = []"
| "batchStates rt st (f # files) = st # batchStates rt (snd (processFile rt st f)) files"

definition outcomeAt :: "runtime \<Rightarrow> FileObject \<times> state \<Rightarrow> ProcessResult" where
  "outcomeAt rt = (\<lambda>(f, st). resultOf f (fst (processFile rt st f)))"

definition helloFile :: FileObject where
  "helloFile = \<lparr>uri = ''/docs/hello.txt'', ftype = None, name = ''hello.txt'', fsize = Some 11\<rparr>"

definition binFile :: FileObject where
  "binFile = \<lparr>uri = ''/docs/data.bin'', ftype = None, name = ''data.bin'', fsize = Some 4\<rparr>"

definition ready :: "state \<Rightarrow> bool" where
  "ready st = (textSession st \<and> visionSession st \<and> itemsCollection st \<noteq> None)"

subsection \<open>A tree without its unreadable directories\<close>




subsection \<open>Searching\<close>

text \<open>
  A record is within the threshold when it has a distance to the query and that
  distance is at most the threshold; \<open>scored\<close> gives a retained record the score
  \<open>max 0 (1 - d / threshold)\<close> of the specification. The example store holds three
  records at the distances 5, 1/4 and 0 from the origin.
\<close>

definition withinThreshold :: "number list \<Rightarrow> real \<Rightarrow> ItemDocType \<Rightarrow> bool" where
  "withinThreshold query threshold d =
     (case euclideanDistance query (docEmbedding d) of
        None \<Rightarrow> False
      | Some x \<Rightarrow> x \<le> threshold)"

definition scored :: "real \<Rightarrow> ItemDocType \<times> real \<Rightarrow> SearchResult" where
  "scored threshold = (\<lambda>(d, x). \<lparr>doc = d, score = Num (max 0 (1 - x / threshold))\<rparr>)"

definition exactDoc :: ItemDocType where
  "exactDoc = \<lparr>docId = ''exact_1'', path = ''/docs/exact.txt'', docType = TextItem,
                docEmbedding = Vector [Num 0, Num 0], dateAdded = ''2''\<rparr>"

definition nearDoc :: ItemDocType where
  "nearDoc = \<lparr>docId = ''near_1'', path = ''/docs/near.txt'', docType = TextItem,
               docEmbedding = Vector [Num 0.15, Num 0.2], dateAdded = ''3''\<rparr>"

definition farDoc :: ItemDocType where
  "farDoc = \<lparr>docId = ''far_1'', path = ''/docs/far.txt'', docType = TextItem,
              docEmbedding = Vector [Num 3, Num 4], dateAdded = ''1''\<rparr>"

definition searchStore :: state where
  "searchStore = \<lparr>textSession = True, visionSession = True,
                   itemsCollection = Some [farDoc, nearDoc, exactDoc], clockReads = 6\<rparr>"

section \<open>Auxiliary facts\<close>

subsection \<open>The rounding of integer doubles\<close>

lemma bitLength_0 [simp]: "bitLength 0 = 0"
  by (simp add: bitLength.simps)

lemma bitLength_1 [simp]: "bitLength (Suc 0) = 1"
  by (simp add: bitLength.simps)

lemma bitLength_bounds: "0 < n \<Longrightarrow> 2 ^ (bitLength n - 1) \<le> n \<and> n < 2 ^ bitLength n"
proof (induction n rule: bitLength.induct)
  case (1 n)
  show ?case
  proof (cases "n div 2 = 0")
    case True
    with 1(2) have "n = 1"
      by presburger
    then show ?thesis
      by simp
  next
    case False
    with 1 have IH: "2 ^ (bitLength (n div 2) - 1) \<le> n div 2" "n div 2 < 2 ^ bitLength (n div 2)"
      by simp_all
    have pos: "0 < bitLength (n div 2)"
      using False by (subst bitLength.simps) simp
    have eq: "bitLength n = Suc (bitLength (n div 2))"
      using 1(2) by (subst bitLength.simps) simp
    from pos obtain k where k: "bitLength (n div 2) = Suc k"
      by (cases "bitLength (n div 2)") auto
    from IH k have "2 ^ k \<le> n div 2" "n div 2 < 2 * 2 ^ k"
      by simp_all
    then have "2 * 2 ^ k \<le> n" "n < 2 * (2 * 2 ^ k)"
      by presburger+
    then show ?thesis
      by (simp add: eq k)
  qed
qed


lemma roundToDouble_exact: "n < 2 ^ 53 \<Longrightarrow> roundToDouble n = Some n"
proof (cases "n = 0")
  case True
  then show ?thesis
    by (simp add: roundToDouble_def)
next
  case False
  assume small: "n < 2 ^ 53"
  from False have "0 < n"
    by simp
  from bitLength_bounds [OF this] small have "(2::nat) ^ (bitLength n - 1) < 2 ^ 53"
    by linarith
  then have "bitLength n - 1 < 53"
    by (rule power_less_imp_less_exp [rotated]) simp
  then have "bitLength n - 53 = 0"
    by simp
  moreover have "n < 2 ^ 1024"
    using small by (rule less_trans) simp
  ultimately show ?thesis
    by (simp add: roundToDouble_def)
qed



subsection \<open>The cut always advances\<close>

lemma lastIndexOf_le: "lastIndexOf text pat n \<le> int n"
  by (induction n) auto

lemma nextEndIndex_gt:
  assumes "1 \<le> maxChunkLength"
  shows "startIndex < nextEndIndex text maxChunkLength startIndex"
  using assms by (auto simp: nextEndIndex_def beyondMidpoint_def Let_def)

lemma substring_take_drop:
  "a \<le> b \<Longrightarrow> substring text a b @ drop b text = drop a text"
proof -
  assume ab: "a \<le> b"
  show ?thesis
  proof (cases "b \<le> length text")
    case True
    with ab have "substring text a b = take (b - a) (drop a text)"
      by (simp add: substring_def Let_def min_def max_def)
    moreover have "drop b text = drop (b - a) (drop a text)"
      using ab by simp
    ultimately show ?thesis
      by (simp only: append_take_drop_id)
  next
    case False
    then show ?thesis
      by (cases "a \<le> length text") (simp_all add: substring_def Let_def min_def max_def)
  qed
qed

lemma chunkLoop_returns:
  assumes "1 \<le> maxChunkLength"
  shows "\<exists>cs. chunkLoop text maxChunkLength startIndex chunks = Some (chunks @ cs)
           \<and> concat cs = drop startIndex text"
proof (induction "length text - startIndex" arbitrary: startIndex chunks rule: less_induct)
  case less
  show ?case
  proof (cases "startIndex < length text")
    case False
    then show ?thesis
      by (subst chunkLoop.simps) simp
  next
    case True
    define e where "e = nextEndIndex text maxChunkLength startIndex"
    have adv: "startIndex < e"
      unfolding e_def by (rule nextEndIndex_gt [OF assms])
    with True have "length text - e < length text - startIndex"
      by arith
    from less [OF this, of "chunks @ [substring text startIndex e]"]
    obtain cs where cs:
      "chunkLoop text maxChunkLength e (chunks @ [substring text startIndex e])
         = Some ((chunks @ [substring text startIndex e]) @ cs)"
      "concat cs = drop e text"
      by blast
    have "chunkLoop text maxChunkLength startIndex chunks
            = Some (chunks @ (substring text startIndex e # cs))"
      using True cs(1) by (subst chunkLoop.simps) (simp add: e_def)
    moreover have "concat (substring text startIndex e # cs) = drop startIndex text"
      using cs(2) adv substring_take_drop [of startIndex e "text"] by simp
    ultimately show ?thesis
      by blast
  qed
qed

subsection \<open>How long a chunk can be\<close>

text \<open>
  A boundary is looked for at the indices up to \<^verbatim>\<open>startIndex + maxChunkLength\<close> and
  the cut is placed after it, so a chunk is at most two code units longer than the
  maximum.
\<close>

lemma nextEndIndex_le: "nextEndIndex text maxChunkLength startIndex \<le> startIndex + maxChunkLength + 2"
proof -
  have "lastIndexOf text pat (startIndex + maxChunkLength) \<le> int (startIndex + maxChunkLength)" for pat
    by (rule lastIndexOf_le)
  from this [of "''\<newline>\<newline>''"] this [of "''\<newline>''"] this [of "''. ''"]
    this [of "''! ''"] this [of "''? ''"] this [of "'' ''"]
  show ?thesis
    by (auto simp: nextEndIndex_def Let_def)
qed

lemma length_substring_le: "a \<le> b \<Longrightarrow> length (substring text a b) \<le> b - a"
  by (auto simp: substring_def Let_def min_def max_def)

lemma chunkLoop_bound:
  assumes "1 \<le> maxChunkLength"
  shows "list_all (\<lambda>c. length c \<le> maxChunkLength + 2) chunks
    \<Longrightarrow> chunkLoop text maxChunkLength startIndex chunks = Some cs
    \<Longrightarrow> list_all (\<lambda>c. length c \<le> maxChunkLength + 2) cs"
proof (induction "length text - startIndex" arbitrary: startIndex chunks rule: less_induct)
  case less
  show ?case
  proof (cases "startIndex < length text")
    case False
    with less.prems show ?thesis
      by (subst (asm) chunkLoop.simps) simp
  next
    case True
    define e where "e = nextEndIndex text maxChunkLength startIndex"
    have adv: "startIndex < e"
      unfolding e_def by (rule nextEndIndex_gt [OF assms])
    have "e \<le> startIndex + maxChunkLength + 2"
      unfolding e_def by (rule nextEndIndex_le)
    with length_substring_le [of startIndex e "text"] adv
    have "length (substring text startIndex e) \<le> maxChunkLength + 2"
      by simp
    with less.prems(1) have all: "list_all (\<lambda>c. length c \<le> maxChunkLength + 2)
        (chunks @ [substring text startIndex e])"
      by simp
    have rec: "chunkLoop text maxChunkLength e (chunks @ [substring text startIndex e]) = Some cs"
      using less.prems(2) True by (subst (asm) chunkLoop.simps) (simp add: e_def)
    from adv True have "length text - e < length text - startIndex"
      by arith
    from less.hyps [OF this all rec] show ?thesis .
  qed
qed

lemma splitTextIntoChunks_bound:
  assumes "1 \<le> maxChunkLength" and "splitTextIntoChunks text maxChunkLength = Some cs"
  shows "list_all (\<lambda>c. length c \<le> maxChunkLength + 2) cs"
proof (cases "text = [] \<or> length text \<le> maxChunkLength")
  case True
  with assms(2) show ?thesis
    by (auto simp: splitTextIntoChunks_def split: if_splits)
next
  case False
  with assms(2) have "chunkLoop text maxChunkLength 0 [] = Some cs"
    by (simp add: splitTextIntoChunks_def)
  from chunkLoop_bound [OF assms(1) _ this] show ?thesis
    by simp
qed

subsection \<open>Looking a document up by its id\<close>

lemma find_None_iff_id: "find (\<lambda>d. docId d = k) docs = None \<longleftrightarrow> k \<notin> docId ` set docs"
  by (induction docs) auto

lemma filter_id_appended:
  "k \<notin> docId ` set docs \<Longrightarrow> docId y = k \<Longrightarrow> filter (\<lambda>d. docId d = k) (docs @ [y]) = [y]"
  by (induction docs) auto

lemma documentUpdate_throws:
  "documentUpdate rt existing newEmbedding newDate = Inl (Error (pluginMissing rt ''update''))"
  by (simp add: documentUpdate_def registeredPlugins_def)

lemma storeEmbedding_inserts:
  assumes "itemsCollection st = Some docs" and "docId data \<notin> docId ` set docs"
  shows "storeEmbedding rt st data = (Inr data, st\<lparr>itemsCollection := Some (docs @ [data])\<rparr>)"
proof -
  from assms(2) have "find (\<lambda>d. docId d = docId data) docs = None"
    by (simp add: find_None_iff_id)
  with assms(1) show ?thesis
    by (simp add: storeEmbedding_def)
qed

lemma storeEmbedding_existing:
  assumes "itemsCollection st = Some docs" and "docId data \<in> docId ` set docs"
  shows "storeEmbedding rt st data
         = (Inl (Error (''Failed to store embedding: '' @ pluginMissing rt ''update'')), st)"
proof -
  from assms(2) have "find (\<lambda>d. docId d = docId data) docs \<noteq> None"
    by (simp add: find_None_iff_id)
  then obtain existing where "find (\<lambda>d. docId d = docId data) docs = Some existing"
    by blast
  with assms(1) show ?thesis
    by (simp add: storeEmbedding_def documentUpdate_throws)
qed

lemma storeEmbedding_fails_whatever_embedding:
  "isl (fst (storeEmbedding rt st data)) = isl (fst (storeEmbedding rt st (data\<lparr>docEmbedding := e\<rparr>)))"
  by (simp add: storeEmbedding_def documentUpdate_throws split: option.splits)

subsection \<open>The embedding is divided by a norm that is not zero\<close>


lemma fold_squares:
  "fold (\<lambda>val sum. nadd sum (nmul val val)) (map Num xs) (Num a) = Num (a + (\<Sum>x\<leftarrow>xs. x\<^sup>2))"
  by (induction xs arbitrary: a) (auto simp: power2_eq_square)

lemma seedOf_nonzero: "seedOf hashStr i \<noteq> 0"
proof
  assume "seedOf hashStr i = 0"
  then have "2 * real (of_char (hashStr ! (i mod length hashStr)) :: nat) = 255"
    by (simp add: seedOf_def)
  then have "real (2 * (of_char (hashStr ! (i mod length hashStr)) :: nat)) = real 255"
    by simp
  then have "2 * (of_char (hashStr ! (i mod length hashStr)) :: nat) = 255"
    by (simp only: of_nat_eq_iff)
  then show False
    by presburger
qed

lemma sum_list_squares_nonneg: "0 \<le> (\<Sum>x\<leftarrow>xs. (x::real)\<^sup>2)"
  by (induction xs) auto

lemma square_le_sum_list_squares: "(y::real) \<in> set xs \<Longrightarrow> y\<^sup>2 \<le> (\<Sum>x\<leftarrow>xs. x\<^sup>2)"
  using sum_list_squares_nonneg by (induction xs) (auto simp: add_increasing add_increasing2)

lemma rawEmbedding_768_positive: "0 < (\<Sum>x\<leftarrow>rawEmbedding hashStr 768. x\<^sup>2)"
proof -
  let ?f = "\<lambda>i. seedOf hashStr i * sin (real i / real (768::nat) * pi)"
  have "(384::nat) \<in> {0..<768}"
    by simp
  then have "?f 384 \<in> ?f ` {0..<768}"
    by (rule imageI)
  then have "?f 384 \<in> set (rawEmbedding hashStr 768)"
    by (simp only: rawEmbedding_def set_map set_upt)
  moreover have "?f 384 = seedOf hashStr 384"
    by simp
  ultimately have "seedOf hashStr 384 \<in> set (rawEmbedding hashStr 768)"
    by simp
  then have "(seedOf hashStr 384)\<^sup>2 \<le> (\<Sum>x\<leftarrow>rawEmbedding hashStr 768. x\<^sup>2)"
    by (rule square_le_sum_list_squares)
  moreover have "0 < (seedOf hashStr 384)\<^sup>2"
    using seedOf_nonzero by simp
  ultimately show ?thesis
    by linarith
qed

lemma generateDeterministicEmbedding_768:
  assumes "numberToString rt (hashOf input) \<noteq> []"
  shows "generateDeterministicEmbedding rt input 768
         = map (\<lambda>x. Num (x / sqrt (\<Sum>y\<leftarrow>rawEmbedding (numberToString rt (hashOf input)) 768. y\<^sup>2)))
             (rawEmbedding (numberToString rt (hashOf input)) 768)"
proof -
  define hs where "hs = numberToString rt (hashOf input)"
  define S where "S = (\<Sum>y\<leftarrow>rawEmbedding hs 768. y\<^sup>2)"
  have pos: "0 < S"
    unfolding S_def by (rule rawEmbedding_768_positive)
  have nonempty: "hs \<noteq> []"
    using assms by (simp add: hs_def)
  have comp: "map (\<lambda>i. nmul (nsub (ndiv (charCodeAt hs (i mod length hs)) (Num 255)) (Num 0.5))
                         (Num (sin (real i / real (768::nat) * pi)))) [0..<768]
              = map Num (rawEmbedding hs 768)"
    using nonempty by (simp add: rawEmbedding_def seedOf_def charCodeAt_def)
  have "generateDeterministicEmbedding rt input 768
          = map (\<lambda>val. ndiv val (nsqrt (fold (\<lambda>val sum. nadd sum (nmul val val))
                                         (map Num (rawEmbedding hs 768)) (Num 0))))
              (map Num (rawEmbedding hs 768))"
    unfolding generateDeterministicEmbedding_def Let_def hashOf_def [symmetric] hs_def [symmetric]
      comp ..
  also have "\<dots> = map (\<lambda>x. Num (x / sqrt S)) (rawEmbedding hs 768)"
    using pos by (simp add: fold_squares S_def)
  finally show ?thesis
    by (simp add: hs_def S_def)
qed



subsection \<open>The mean that averageEmbeddings computes\<close>

lemma fold_add_vectors:
  assumes "length acc = d" and "list_all (\<lambda>v. length v = d) vs"
  shows "fold (\<lambda>embedding result. map (\<lambda>i. nadd (result ! i) (numberAt embedding i)) [0..<d])
           (map (map Num) vs) (map Num acc)
         = map Num (map (\<lambda>i. acc ! i + (\<Sum>v\<leftarrow>vs. v ! i)) [0..<d])"
  using assms
proof (induction vs arbitrary: acc)
  case Nil
  have "map (\<lambda>i. acc ! i) [0..<length acc] = acc"
    by (rule map_nth)
  with Nil show ?case
    by simp
next
  case (Cons v vs)
  define acc' where "acc' = map (\<lambda>i. acc ! i + v ! i) [0..<d]"
  have step: "map (\<lambda>i. nadd (map Num acc ! i) (numberAt (map Num v) i)) [0..<d] = map Num acc'"
    using Cons.prems by (simp add: acc'_def numberAt_def)
  have len: "length acc' = d"
    by (simp add: acc'_def)
  have rest: "list_all (\<lambda>v. length v = d) vs"
    using Cons.prems by simp
  have "fold (\<lambda>embedding result. map (\<lambda>i. nadd (result ! i) (numberAt embedding i)) [0..<d])
           (map (map Num) (v # vs)) (map Num acc)
        = map Num (map (\<lambda>i. acc' ! i + (\<Sum>v\<leftarrow>vs. v ! i)) [0..<d])"
    using Cons.IH [OF len rest] step by simp
  also have "\<dots> = map Num (map (\<lambda>i. acc ! i + (\<Sum>v\<leftarrow>v # vs. v ! i)) [0..<d])"
    by (simp add: acc'_def)
  finally show ?case .
qed

lemma averageEmbeddings_mean:
  assumes "vs \<noteq> []" and "list_all (\<lambda>v. length v = length (hd vs)) vs"
  shows "averageEmbeddings (map (map Num) vs) = Inr (map Num (elementwiseMean vs))"
proof (cases vs)
  case Nil
  with assms show ?thesis by simp
next
  case (Cons v ws)
  note vs = Cons
  show ?thesis
  proof (cases ws)
    case Nil
    have "map (\<lambda>i. v ! i) [0..<length v] = v"
      by (rule map_nth)
    with vs Nil show ?thesis
      by (simp add: elementwiseMean_def)
  next
    case (Cons w xs)
    define d where "d = length v"
    have all: "list_all (\<lambda>u. length u = d) (v # w # xs)"
      using assms(2) vs Cons by (simp add: d_def)
    have zero: "replicate d (Num 0) = map Num (replicate d 0)"
      by simp
    have "averageEmbeddings (map (map Num) (v # w # xs))
            = Inr (map (\<lambda>r. ndiv r (Num (real (length (v # w # xs)))))
                (fold (\<lambda>embedding result. map (\<lambda>i. nadd (result ! i) (numberAt embedding i)) [0..<d])
                   (map (map Num) (v # w # xs)) (map Num (replicate d 0))))"
      by (simp add: d_def Let_def)
    also have "\<dots> = Inr (map (\<lambda>r. ndiv r (Num (real (length (v # w # xs)))))
                (map Num (map (\<lambda>i. replicate d 0 ! i + (\<Sum>u\<leftarrow>v # w # xs. u ! i)) [0..<d])))"
      by (subst fold_add_vectors [OF _ all]) simp_all
    also have "\<dots> = Inr (map Num (elementwiseMean (v # w # xs)))"
      by (simp add: elementwiseMean_def d_def)
    finally show ?thesis
      by (simp add: vs Cons)
  qed
qed

subsection \<open>The frames of a video\<close>

lemma fold_successes:
  "fold (\<lambda>i embeddings. case f i of Inl err \<Rightarrow> embeddings | Inr embedding \<Rightarrow> embeddings @ [embedding])
     xs acc = acc @ successes (map f xs)"
proof (induction xs arbitrary: acc)
  case Nil
  then show ?case by simp
next
  case (Cons x xs)
  then show ?case
    by (cases "f x") simp_all
qed

lemma generateDeterministicEmbedding_finite:
  assumes "\<forall>x. numberToString rt x \<noteq> []"
  shows "\<exists>v. generateDeterministicEmbedding rt input 768 = map Num v \<and> length v = 768"
proof -
  let ?raw = "rawEmbedding (numberToString rt (hashOf input)) 768"
  let ?v = "map (\<lambda>x. x / sqrt (\<Sum>y\<leftarrow>?raw. y\<^sup>2)) ?raw"
  have "numberToString rt (hashOf input) \<noteq> []"
    using assms by simp
  from generateDeterministicEmbedding_768 [OF this]
  have "generateDeterministicEmbedding rt input 768 = map Num ?v"
    by (simp only: map_map comp_def)
  moreover have "length ?v = 768"
    by (simp add: rawEmbedding_def)
  ultimately show ?thesis
    by blast
qed

lemma getVisionEmbedding_finite:
  assumes "\<forall>x. numberToString rt x \<noteq> []" and "getVisionEmbedding rt st imageData = Inr e"
  shows "\<exists>v. e = map Num v \<and> length v = 768"
proof (cases "visionSession st")
  case False
  with assms(2) show ?thesis
    by (simp add: getVisionEmbedding_def)
next
  case True
  with assms(2) have "\<exists>input. e = generateDeterministicEmbedding rt input 768"
    unfolding getVisionEmbedding_def Let_def EMBEDDING_DIM_def by auto
  with generateDeterministicEmbedding_finite [OF assms(1)] show ?thesis
    by metis
qed

lemma frameEmbedding_finite:
  assumes "\<forall>x. numberToString rt x \<noteq> []" and "frameEmbedding rt st filePath i = Inr e"
  shows "\<exists>v. e = map Num v \<and> length v = 768"
  using assms(2) getVisionEmbedding_finite [OF assms(1)]
  by (auto simp: frameEmbedding_def Let_def split: sum.splits)

lemma successes_finite:
  assumes "\<And>i e. f i = Inr e \<Longrightarrow> \<exists>v. e = map Num v \<and> length v = d"
  shows "\<exists>vs. successes (map f xs) = map (map Num) vs \<and> list_all (\<lambda>v. length v = d) vs"
proof (induction xs)
  case Nil
  then show ?case by simp
next
  case (Cons x xs)
  then obtain vs where vs: "successes (map f xs) = map (map Num) vs" "list_all (\<lambda>v. length v = d) vs"
    by blast
  show ?case
  proof (cases "f x")
    case (Inl err)
    with vs show ?thesis by auto
  next
    case (Inr e)
    with assms obtain v where "e = map Num v" "length v = d"
      by blast
    with Inr vs have "successes (map f (x # xs)) = map (map Num) (v # vs)
        \<and> list_all (\<lambda>v. length v = d) (v # vs)"
      by simp
    then show ?thesis
      by blast
  qed
qed

lemma decimalDigits_nonempty: "decimalDigits n \<noteq> []"
  by (subst decimalDigits.simps) simp

lemma shortestDigits_nonempty: "shortestDigits n z \<noteq> []"
  by (induction z) (simp_all add: Let_def decimalDigits_nonempty)

lemma exampleRuntime_renders: "\<forall>x. numberToString exampleRuntime x \<noteq> []"
proof
  fix x
  show "numberToString exampleRuntime x \<noteq> []"
    by (cases x)
       (simp_all add: exampleRuntime_def exampleNumberToString_def Let_def decimalDigits_nonempty
          shortestDigits_nonempty)
qed

lemma upt_10: "[0..<10] = [0, 1, 2, 3, 4, 5, 6, 7, 8, 9::nat]"
  by (simp add: upt_conv_Cons)

lemma replicate_20: "replicate 20 x = [x, x, x, x, x, x, x, x, x, x, x, x, x, x, x, x, x, x, x, x]"
  by (simp add: numeral_eq_Suc)

lemma placeholder_imageHash:
  "fold (\<lambda>(i, val) acc. nadd acc (nmul val (Num (real (i + 1)))))
     (enumerate 0 (take 20 placeholderPixelData)) (Num 0) = Num 105"
proof -
  have "take 20 placeholderPixelData = replicate 20 (Num 0.5)"
    by (simp add: placeholderPixelData_def)
  then show ?thesis
    by (simp only: replicate_20) simp
qed

lemma getVisionEmbedding_placeholder:
  "visionSession st \<Longrightarrow>
     getVisionEmbedding rt st placeholderPixelData = Inr (placeholderEmbedding rt)"
  by (simp only: getVisionEmbedding_def Let_def placeholder_imageHash placeholderEmbedding_def)
     simp





lemma frameEmbedding_seven:
  "frameEmbedding exampleRuntime emptyStore ''/clips/seven.mp4'' i
     = (if i < 7 then Inr (placeholderEmbedding exampleRuntime)
        else Inl (Error ''Could not generate thumbnail''))"
proof -
  have session: "visionSession emptyStore"
    by (simp add: emptyStore_def)
  have pre: "preprocessImage exampleRuntime ''file:///cache/frame.jpg''
               = Inr placeholderPixelData"
    by (simp add: preprocessImage_def exampleRuntime_def matchesAt_def Let_def)
  have thumb: "getThumbnailAsync exampleRuntime ''/clips/seven.mp4'' (1000 * i)
                 = (if i < 7 then Inr ''file:///cache/frame.jpg''
                    else Inl (Error ''Could not generate thumbnail''))"
    by (simp add: exampleRuntime_def)
  show ?thesis
    by (simp add: frameEmbedding_def Let_def thumb pre getVisionEmbedding_placeholder [OF session])
qed

lemma replicate_7: "replicate 7 x = [x, x, x, x, x, x, x]"
  by (simp add: numeral_eq_Suc)

lemma seven_frames:
  "successes (map (frameEmbedding exampleRuntime emptyStore ''/clips/seven.mp4'') [0..<10])
     = replicate 7 (placeholderEmbedding exampleRuntime)"
  by (simp add: upt_10 frameEmbedding_seven replicate_7)

lemma no_frames:
  "successes (map (frameEmbedding exampleRuntime emptyStore ''/clips/none.mp4'') [0..<10]) = []"
  by (simp add: upt_10 frameEmbedding_def exampleRuntime_def)

subsection \<open>A text of two chunks\<close>



































subsection \<open>The mean of two different unit vectors\<close>



lemma generateDeterministicEmbedding_normalized:
  assumes "numberToString rt (hashOf input) = hashStr" and "hashStr \<noteq> []"
  shows "generateDeterministicEmbedding rt input 768 = map Num (normalized (rawEmbedding hashStr 768))"
  using generateDeterministicEmbedding_768 [of rt input] assms
  by (simp add: normalized_def comp_def)













subsection \<open>What the file processors return\<close>






lemma averageEmbeddings_dimension:
  assumes "vs \<noteq> []" and "list_all (\<lambda>v. length v = d) vs"
  shows "\<exists>m. averageEmbeddings (map (map Num) vs) = Inr m \<and> length m = d"
proof -
  from assms have hd: "length (hd vs) = d"
    by (cases vs) simp_all
  with assms(2) have "list_all (\<lambda>v. length v = length (hd vs)) vs"
    by simp
  from averageEmbeddings_mean [OF assms(1) this] hd show ?thesis
    by (simp add: elementwiseMean_def)
qed


lemma processVideoFile_unfolded:
  "processVideoFile rt st filePath =
      rethrowAs ''Failed to process video file: ''
        (if successes (map (frameEmbedding rt st filePath) [0..<10]) = []
         then Inl (Error ''No frames could be processed from video.'')
         else (case averageEmbeddings (successes (map (frameEmbedding rt st filePath) [0..<10])) of
                 Inl e \<Rightarrow> Inl e
               | Inr finalEmbedding \<Rightarrow> Inr (EmbeddingResult (Vector finalEmbedding))))"
  by (simp only: processVideoFile_def Let_def fold_successes append_Nil length_0_conv)

lemma processVideoFile_dimension:
  assumes "\<forall>x. numberToString rt x \<noteq> []"
    and "processVideoFile rt st filePath = Inr (EmbeddingResult (Vector v))"
  shows "length v = 768"
proof -
  obtain vs where vs:
    "successes (map (frameEmbedding rt st filePath) [0..<10]) = map (map Num) vs"
    "list_all (\<lambda>v. length v = 768) vs"
    using successes_finite [of "frameEmbedding rt st filePath" 768 "[0..<10]"]
      frameEmbedding_finite [OF assms(1)]
    by blast
  show ?thesis
  proof (cases "vs = []")
    case True
    with assms(2) vs(1) show ?thesis
      by (simp add: processVideoFile_unfolded rethrowAs_def)
  next
    case False
    from averageEmbeddings_dimension [OF False vs(2)] assms(2) False vs(1) show ?thesis
      by (auto simp: processVideoFile_unfolded rethrowAs_def)
  qed
qed








subsection \<open>The loop of processFolderFiles\<close>

lemma length_batchStates [simp]: "length (batchStates rt st files) = length files"
  by (induction files arbitrary: st) simp_all

lemma processFolderLoop_results:
  "results (processFolderLoop rt cb n files b)
     = results b @ map (outcomeAt rt) (zip files (batchStates rt (finalState b) files))"
  by (induction files arbitrary: b) (simp_all add: Let_def split_beta outcomeAt_def)

lemma processFolderLoop_calls:
  "progressCalls (processFolderLoop rt True n files b)
     = progressCalls b @ map (\<lambda>k. (processedCount b + k, n)) [1..<Suc (length files)]"
proof (induction files arbitrary: b)
  case Nil
  then show ?case by simp
next
  case (Cons f files)
  have "[1..<Suc (Suc (length files))] = 1 # map Suc [1..<Suc (length files)]"
    by (simp add: upt_conv_Cons map_Suc_upt del: upt_Suc)
  then show ?case
    by (simp add: Cons.IH Let_def split_beta comp_def del: upt_Suc)
qed

lemma processFolderLoop_no_callback:
  "progressCalls (processFolderLoop rt False n files b) = progressCalls b"
  by (induction files arbitrary: b) (simp_all add: Let_def split_beta)

lemma file_outcomeAt: "file' (outcomeAt rt (f, st)) = f"
  by (simp add: outcomeAt_def resultOf_def split: sum.splits)

lemma map_file_outcomes: "length sts = length files \<Longrightarrow> map (file' \<circ> outcomeAt rt) (zip files sts) = files"
proof (induction files arbitrary: sts)
  case Nil
  then show ?case by simp
next
  case (Cons f files)
  then show ?case
    by (cases sts) (simp_all add: file_outcomeAt)
qed

lemma processFile_inserts:
  assumes ios: "\<not> platformIsIOS rt" and type: "determineFileType rt f = Some TextItem"
    and processed: "processTextFile rt st (uri f) = Inr (EmbeddingResult e)"
    and init: "itemsCollection st = Some docs"
    and newId: "newId = filter isAlphaNumeric (uri f) @ ''_''
                  @ numberToString rt (Num (real (dateNow rt (clockReads st))))"
    and fresh: "newId \<notin> docId ` set docs"
  shows "processFile rt st f =
     (Inr True,
      st\<lparr>clockReads := Suc (Suc (clockReads st)),
         itemsCollection :=
           Some (docs @ [\<lparr>docId = newId, path = uri f, docType = TextItem, docEmbedding = e,
                          dateAdded = toISOString rt (dateNow rt (Suc (clockReads st)))\<rparr>])\<rparr>)"
proof -
  let ?st1 = "st\<lparr>clockReads := Suc (clockReads st)\<rparr>"
  let ?st2 = "st\<lparr>clockReads := Suc (Suc (clockReads st))\<rparr>"
  let ?data = "\<lparr>docId = newId, path = uri f, docType = TextItem, docEmbedding = e,
                dateAdded = toISOString rt (dateNow rt (Suc (clockReads st)))\<rparr>"
  have id: "generateId rt st (uri f) = (newId, ?st1)"
    by (simp add: generateId_def readClock_def newId)
  have clock: "readClock rt ?st1 = (dateNow rt (Suc (clockReads st)), ?st2)"
    by (simp add: readClock_def)
  have store: "storeEmbedding rt ?st2 ?data
      = (Inr ?data, ?st2\<lparr>itemsCollection := Some (docs @ [?data])\<rparr>)"
    by (rule storeEmbedding_inserts) (simp_all add: init fresh)
  show ?thesis
    by (simp add: processFile_def ios type processed id clock store)
qed

lemma processFile_unsupported:
  "determineFileType rt f = None \<Longrightarrow> \<not> platformIsIOS rt \<Longrightarrow>
   processFile rt st f = (Inl (Error (''Unsupported file type: '' @ typeOr f (name f) (\<lambda>t. t))), st)"
  by (simp add: processFile_def)

lemma helloFile_type: "determineFileType exampleRuntime helloFile = Some TextItem"
  by (simp add: determineFileType_def typeOr_def getMimeType_def getFileExtension_def
      exampleRuntime_def exampleExtname_def matchesAt_def toLowerCase_def toLowerChar_def
      char_of_def bit_Suc_0_iff mimeTypes_def startsWith_def helloFile_def)

lemma binFile_type: "determineFileType exampleRuntime binFile = None"
  by (simp add: determineFileType_def typeOr_def getMimeType_def getFileExtension_def
      exampleRuntime_def exampleExtname_def matchesAt_def toLowerCase_def toLowerChar_def
      char_of_def bit_Suc_0_iff mimeTypes_def startsWith_def binFile_def)

lemma hello_chunks: "defaultChunks ''hello world'' = [''hello world'']"
  by (simp add: defaultChunks_def splitTextIntoChunks_def)

lemma hello_embedding:
  assumes "textSession st"
  shows "getTextEmbedding exampleRuntime st ''hello world'' = Inr (map Num helloVector)"
proof -
  have "hashOf ''hello world'' = Num 2955869306693316"
    by (simp add: hashOf_def integerNumber_def roundToDouble_exact)
  moreover have "exampleNumberToString (Num 2955869306693316) = ''2955869306693316''"
    by (simp add: exampleNumberToString_def decimalDigits.simps digitChar_def)
  ultimately have "numberToString exampleRuntime (hashOf ''hello world'') = ''2955869306693316''"
    by (simp add: exampleRuntime_def)
  from generateDeterministicEmbedding_normalized [OF this] assms show ?thesis
    by (simp add: getTextEmbedding_def EMBEDDING_DIM_def helloVector_def)
qed

lemma processTextFile_hello:
  assumes "textSession st"
  shows "processTextFile exampleRuntime st ''/docs/hello.txt''
         = Inr (EmbeddingResult (Vector (map Num helloVector)))"
proof -
  have read: "readAsStringAsync exampleRuntime ''/docs/hello.txt'' = Inr ''hello world''"
    by (simp add: exampleRuntime_def exampleFiles_def)
  have "0 < length (trim ''hello world'')"
    by (simp add: trim_def isWhiteSpace_def)
  then have "embedChunks exampleRuntime st (defaultChunks ''hello world'') []
      = Inr [map Num helloVector]"
    by (simp add: hello_chunks hello_embedding [OF assms])
  then show ?thesis
    by (simp add: processTextFile_def read rethrowAs_def)
qed

subsection \<open>The scan of a pruned tree\<close>







subsection \<open>The records that a search retains\<close>

lemma retained_docs:
  "map fst (concat (map (withinDistance query threshold) docs))
     = filter (withinThreshold query threshold) docs"
  by (induction docs) (simp_all add: withinDistance_def withinThreshold_def split: option.splits)

lemma retained_distances:
  "(d, x) \<in> set (concat (map (withinDistance query threshold) docs))
     \<longleftrightarrow> d \<in> set docs \<and> euclideanDistance query (docEmbedding d) = Some x \<and> x \<le> threshold"
  by (induction docs) (auto simp: withinDistance_def split: option.splits if_splits)

lemma euclideanDistance_nonneg: "euclideanDistance query e = Some x \<Longrightarrow> 0 \<le> x"
  by (auto simp: euclideanDistance_def split: embedding.splits option.splits if_splits
      intro!: sum_list_nonneg)

lemma finiteValues_Some: "finiteValues v = Some xs \<Longrightarrow> v = map Num xs"
proof (induction v arbitrary: xs)
  case Nil
  then show ?case by simp
next
  case (Cons n v)
  then show ?case
    by (cases n) auto
qed

lemma euclideanDistance_self:
  "finiteValues query = Some qs \<Longrightarrow> euclideanDistance query (Vector query) = Some 0"
proof -
  have "(\<Sum>(a, b)\<leftarrow>zip qs qs. (a - b)\<^sup>2) = (0::real)" for qs :: "real list"
    by (induction qs) simp_all
  then show "finiteValues query = Some qs \<Longrightarrow> euclideanDistance query (Vector query) = Some 0"
    by (simp add: euclideanDistance_def)
qed

lemma zero_distance_lists:
  "length q = length x \<Longrightarrow> (\<Sum>(a, b)\<leftarrow>zip q x. (a - b)\<^sup>2) = (0::real) \<Longrightarrow> q = x"
proof (induction q x rule: list_induct2)
  case Nil
  then show ?case by simp
next
  case (Cons a q b x)
  have "0 \<le> (\<Sum>(a, b)\<leftarrow>zip q x. (a - b)\<^sup>2)"
    by (rule sum_list_nonneg) auto
  moreover have "0 \<le> (a - b)\<^sup>2"
    by simp
  ultimately have "(a - b)\<^sup>2 = 0" and "(\<Sum>(a, b)\<leftarrow>zip q x. (a - b)\<^sup>2) = 0"
    using Cons.prems by (simp_all add: add_nonneg_eq_0_iff)
  with Cons.IH show ?case
    by simp
qed

lemma euclideanDistance_zero:
  assumes "euclideanDistance query e = Some 0"
  shows "e = Vector query"
proof -
  from assms obtain v q x where e: "e = Vector v"
    and fin: "finiteValues query = Some q" "finiteValues v = Some x"
    and len: "length q = length x"
    and zero: "sqrt (\<Sum>(a, b)\<leftarrow>zip q x. (a - b)\<^sup>2) = 0"
    by (auto simp: euclideanDistance_def split: embedding.splits option.splits if_splits)
  from zero have "(\<Sum>(a, b)\<leftarrow>zip q x. (a - b)\<^sup>2) = 0"
    by simp
  from zero_distance_lists [OF len this] have "q = x" .
  with fin have "query = map Num x" and "v = map Num x"
    by (simp_all add: finiteValues_Some)
  with e show ?thesis
    by simp
qed

lemma sorted_head_least:
  assumes "sorted (map snd xs)" and "(d, 0::real) \<in> set xs" and "\<forall>(d, x)\<in>set xs. 0 \<le> x"
  shows "xs \<noteq> [] \<and> snd (hd xs) = 0"
proof (cases xs)
  case Nil
  with assms(2) show ?thesis by simp
next
  case (Cons y ys)
  with assms(1,2) have "snd y \<le> 0"
    by auto
  moreover have "0 \<le> snd y"
    using assms(3) Cons by auto
  ultimately show ?thesis
    using Cons by simp
qed

lemma searchByVector_scored:
  assumes "0 < threshold" and "itemsCollection st = Some docs"
  shows "searchByVector st query limit threshold
     = Inr (map (scored threshold)
         (take limit (sort_key snd (concat (map (withinDistance query threshold) docs)))))"
proof -
  let ?W = "concat (map (withinDistance query threshold) docs)"
  let ?hits = "take limit (sort_key snd ?W)"
  have "(case Some (Num x) of
           Some n \<Rightarrow> nsub (Num 1) (ndiv n (Num threshold))
         | None \<Rightarrow> Num 1) = Num (max 0 (1 - x / threshold))"
    if "(d, x) \<in> set ?hits" for d x
  proof -
    from that have "(d, x) \<in> set ?W"
      by (auto dest: in_set_takeD)
    then have "x \<le> threshold"
      by (simp only: retained_distances)
    with assms(1) have "x / threshold \<le> 1"
      by simp
    with assms(1) show ?thesis
      by (simp add: max_def)
  qed
  then have "map (\<lambda>(d, distance).
                \<lparr>doc = d,
                 score = (case distance of
                            Some n \<Rightarrow> nsub (Num 1) (ndiv n (Num threshold))
                          | None \<Rightarrow> Num 1)\<rparr>)
              (map (\<lambda>(d, distance). (d, Some (Num distance))) ?hits)
           = map (scored threshold) ?hits"
    by (auto simp: scored_def)
  with assms(2) show ?thesis
    by (simp add: searchByVector_def vectorFind_def)
qed

lemma example_distances:
  "euclideanDistance [Num 0, Num 0] (docEmbedding exactDoc) = Some 0"
  "euclideanDistance [Num 0, Num 0] (docEmbedding nearDoc) = Some (1 / 4)"
  "euclideanDistance [Num 0, Num 0] (docEmbedding farDoc) = Some 5"
proof -
  have "sqrt (1 / 16) = 1 / 4"
    by (rule real_sqrt_unique) (simp_all add: power2_eq_square)
  moreover have "sqrt 25 = 5"
    by (rule real_sqrt_unique) simp_all
  ultimately show
    "euclideanDistance [Num 0, Num 0] (docEmbedding exactDoc) = Some 0"
    "euclideanDistance [Num 0, Num 0] (docEmbedding nearDoc) = Some (1 / 4)"
    "euclideanDistance [Num 0, Num 0] (docEmbedding farDoc) = Some 5"
    by (simp_all add: euclideanDistance_def exactDoc_def nearDoc_def farDoc_def power2_eq_square)
qed

lemma example_search:
  "searchByVector searchStore [Num 0, Num 0] 5 (1 / 2)
     = Inr [\<lparr>doc = exactDoc, score = Num 1\<rparr>, \<lparr>doc = nearDoc, score = Num (1 / 2)\<rparr>]"
  by (simp add: searchByVector_def vectorFind_def withinDistance_def example_distances
      searchStore_def)

section \<open>Claims\<close>

text \<open>
  C4. For every text and every maximum chunk length of at least 1,
  \<^verbatim>\<open>splitTextIntoChunks\<close> returns, and the chunks it returns, concatenated in order,
  are the text itself; the empty text gives no chunk at all.
\<close>

theorem splitTextIntoChunks_lossless:
  assumes "1 \<le> maxChunkLength"
  shows "(\<exists>chunks. splitTextIntoChunks text maxChunkLength = Some chunks
             \<and> concat chunks = text)
         \<and> splitTextIntoChunks [] maxChunkLength = Some []"
proof -
  from chunkLoop_returns [OF assms, of "text" 0 "[]"]
  have "\<exists>cs. chunkLoop text maxChunkLength 0 [] = Some cs \<and> concat cs = text"
    by simp
  then show ?thesis
    by (auto simp: splitTextIntoChunks_def)
qed

theorem splitTextIntoChunks_lossless_witness:
  "(1::nat) \<le> 4
   \<and> (\<exists>chunks. splitTextIntoChunks ''abcd efgh'' 4 = Some chunks
          \<and> concat chunks = ''abcd efgh'')
   \<and> splitTextIntoChunks [] 4 = Some []"
  using splitTextIntoChunks_lossless [of 4 "''abcd efgh''"] by simp

text \<open>
  C5. Every chunk returned by \<^verbatim>\<open>splitTextIntoChunks\<close> has length at most the maximum
  chunk length. The code does not keep this bound: \<^verbatim>\<open>lastIndexOf(pat, endIndex)\<close>
  also finds a boundary that starts exactly at \<^verbatim>\<open>startIndex + maxChunkLength\<close>, and
  the cut is placed after the boundary. With a maximum of 4 the text
  \<^verbatim>\<open>"abcd efgh"\<close> gives a first chunk of 5 code units, and a paragraph break at the
  same place gives one of 6. The bound that the code keeps is the maximum plus 2
  (lemma \<open>splitTextIntoChunks_bound\<close>).
\<close>

theorem splitTextIntoChunks_exceeds_maximum:
  "splitTextIntoChunks ''abcd efgh'' 4 = Some [''abcd '', ''efgh'']
   \<and> length ''abcd '' = 5
   \<and> splitTextIntoChunks ''abcd\<newline>\<newline>xyz'' 4 = Some [''abcd\<newline>\<newline>'', ''xyz'']
   \<and> length ''abcd\<newline>\<newline>'' = 6"
  by code_simp

text \<open>
  C6. \<^verbatim>\<open>storeEmbedding\<close> called with a record and then with a second record of the
  same id leaves one record under the id, with the embedding and the date of the second
  call. The code does not: the first call inserts the record, the second finds it and
  calls \<^verbatim>\<open>existing.update\<close>, a method of the update plugin of RxDB, which the module
  does not register. The method throws, the \<^verbatim>\<open>catch\<close> throws
  \<^verbatim>\<open>"Failed to store embedding: ..."\<close>, and the store keeps the record of the first
  call, the only one under the id.
\<close>

theorem storeEmbedding_second_call_fails:
  assumes init: "itemsCollection st = Some docs"
    and fresh: "docId first \<notin> docId ` set docs"
    and same: "docId second = docId first"
  shows "storeEmbedding rt st first = (Inr first, st\<lparr>itemsCollection := Some (docs @ [first])\<rparr>)
    \<and> storeEmbedding rt (st\<lparr>itemsCollection := Some (docs @ [first])\<rparr>) second
        = (Inl (Error (''Failed to store embedding: '' @ pluginMissing rt ''update'')),
           st\<lparr>itemsCollection := Some (docs @ [first])\<rparr>)
    \<and> filter (\<lambda>d. docId d = docId first) (docs @ [first]) = [first]"
proof -
  have one: "storeEmbedding rt st first
      = (Inr first, st\<lparr>itemsCollection := Some (docs @ [first])\<rparr>)"
    using init fresh by (rule storeEmbedding_inserts)
  have found: "docId second \<in> docId ` set (docs @ [first])"
    by (simp add: same)
  have two: "storeEmbedding rt (st\<lparr>itemsCollection := Some (docs @ [first])\<rparr>) second
        = (Inl (Error (''Failed to store embedding: '' @ pluginMissing rt ''update'')),
           st\<lparr>itemsCollection := Some (docs @ [first])\<rparr>)"
    by (rule storeEmbedding_existing [OF _ found]) simp
  have three: "filter (\<lambda>d. docId d = docId first) (docs @ [first]) = [first]"
    using filter_id_appended [OF fresh, of first] by simp
  from one two three show ?thesis
    by simp
qed

theorem storeEmbedding_second_call_fails_witness:
  "itemsCollection emptyStore = Some []
   \<and> docId noteV1 \<notin> docId ` set []
   \<and> docId noteV2 = docId noteV1
   \<and> docEmbedding noteV2 \<noteq> docEmbedding noteV1
   \<and> storeEmbedding exampleRuntime emptyStore noteV1
       = (Inr noteV1, emptyStore\<lparr>itemsCollection := Some [noteV1]\<rparr>)
   \<and> storeEmbedding exampleRuntime (emptyStore\<lparr>itemsCollection := Some [noteV1]\<rparr>) noteV2
       = (Inl (Error (''Failed to store embedding: ''
                      @ ''You are using a function which must be overwritten by a plugin.'')),
          emptyStore\<lparr>itemsCollection := Some [noteV1]\<rparr>)
   \<and> filter (\<lambda>d. docId d = docId noteV1) [noteV1] = [noteV1]"
proof -
  have a: "itemsCollection emptyStore = Some []"
    by (simp add: emptyStore_def)
  have b: "docId noteV1 \<notin> docId ` set []"
    by simp
  have c: "docId noteV2 = docId noteV1"
    by (simp add: noteV1_def noteV2_def)
  have d: "docEmbedding noteV2 \<noteq> docEmbedding noteV1"
    by (simp add: noteV1_def noteV2_def)
  have e: "pluginMissing exampleRuntime ''update''
      = ''You are using a function which must be overwritten by a plugin.''"
    by (simp add: exampleRuntime_def)
  from storeEmbedding_second_call_fails [OF a b c, of exampleRuntime] a b c d show ?thesis
    by (simp only: e append_Nil) simp
qed

text \<open>
  C7. An upsert whose embedding has not 768 components fails with a dimension
  mismatch. The code checks no dimension, in \<^verbatim>\<open>storeEmbedding\<close> or in \<^verbatim>\<open>itemsSchema\<close>:
  an embedding of 3 components is stored as it is.
\<close>

theorem storeEmbedding_other_dimension_counterexample:
  "storeEmbedding exampleRuntime emptyStore noteV1
     = (Inr noteV1, emptyStore\<lparr>itemsCollection := Some [noteV1]\<rparr>)
   \<and> docEmbedding noteV1 = Vector [Num 1, Num 0, Num 0]
   \<and> length [Num 1, Num 0, Num 0] \<noteq> 768"
  by (simp add: storeEmbedding_def emptyStore_def noteV1_def)

text \<open>
  C7, as amended. \<^verbatim>\<open>storeEmbedding\<close> checks no dimension. On an initialised store a
  record whose id is not yet stored is inserted whatever the length of its embedding,
  and the embedding is stored as it is given, neither truncated nor padded; so the
  records of the store all have 768 components after the insert exactly when they had
  before and the new record has. Whether a call of \<^verbatim>\<open>storeEmbedding\<close> fails never
  depends on the embedding it is given.
\<close>

theorem storeEmbedding_checks_no_dimension:
  assumes init: "itemsCollection st = Some docs"
    and fresh: "docId data \<notin> docId ` set docs"
  shows "storeEmbedding rt st data = (Inr data, st\<lparr>itemsCollection := Some (docs @ [data])\<rparr>)
      \<and> (list_all (\<lambda>d. hasDimension 768 (docEmbedding d)) (docs @ [data])
          \<longleftrightarrow> list_all (\<lambda>d. hasDimension 768 (docEmbedding d)) docs
              \<and> hasDimension 768 (docEmbedding data))
      \<and> isl (fst (storeEmbedding rt st' data'))
          = isl (fst (storeEmbedding rt st' (data'\<lparr>docEmbedding := e\<rparr>)))"
proof -
  have "storeEmbedding rt st data = (Inr data, st\<lparr>itemsCollection := Some (docs @ [data])\<rparr>)"
    using init fresh by (rule storeEmbedding_inserts)
  moreover have "isl (fst (storeEmbedding rt st' data'))
          = isl (fst (storeEmbedding rt st' (data'\<lparr>docEmbedding := e\<rparr>)))"
    by (rule storeEmbedding_fails_whatever_embedding)
  ultimately show ?thesis
    by simp
qed

theorem storeEmbedding_checks_no_dimension_witness:
  "itemsCollection emptyStore = Some []
   \<and> docId noteV1 \<notin> docId ` set []
   \<and> storeEmbedding exampleRuntime emptyStore noteV1
       = (Inr noteV1, emptyStore\<lparr>itemsCollection := Some [noteV1]\<rparr>)
   \<and> \<not> hasDimension 768 (docEmbedding noteV1)
   \<and> \<not> list_all (\<lambda>d. hasDimension 768 (docEmbedding d)) [noteV1]
   \<and> isl (fst (storeEmbedding exampleRuntime (emptyStore\<lparr>itemsCollection := Some [noteV1]\<rparr>) noteV2))
       = isl (fst (storeEmbedding exampleRuntime (emptyStore\<lparr>itemsCollection := Some [noteV1]\<rparr>)
                     (noteV2\<lparr>docEmbedding := Vector (replicate 768 (Num 0))\<rparr>)))"
proof -
  have a: "itemsCollection emptyStore = Some []"
    by (simp add: emptyStore_def)
  have b: "docId noteV1 \<notin> docId ` set []"
    by simp
  have c: "\<not> hasDimension 768 (docEmbedding noteV1)"
    by (simp add: hasDimension_def noteV1_def)
  from storeEmbedding_checks_no_dimension [OF a b, of exampleRuntime
      "emptyStore\<lparr>itemsCollection := Some [noteV1]\<rparr>" noteV2 "Vector (replicate 768 (Num 0))"]
    a b c
  show ?thesis
    by simp
qed

text \<open>
  C2. A text file with no chunk that is non-empty after trimming makes
  \<^verbatim>\<open>processTextFile\<close> fail. The code does not fail: with no embedding at all,
  \<^verbatim>\<open>embeddings.length > 1\<close> is false and the result is \<^verbatim>\<open>embeddings[0]\<close>, which is
  \<^verbatim>\<open>undefined\<close>; \<^verbatim>\<open>processVideoFile\<close> tests for the empty array and throws. The empty
  file and a file of white space both return an object whose embedding is undefined.
\<close>

theorem processTextFile_without_content:
  "processTextFile exampleRuntime emptyStore ''/docs/empty.txt'' = Inr (EmbeddingResult Undefined)
   \<and> processTextFile exampleRuntime emptyStore ''/docs/blank.txt'' = Inr (EmbeddingResult Undefined)"
  by (simp add: processTextFile_def exampleRuntime_def exampleFiles_def defaultChunks_def
      splitTextIntoChunks_def rethrowAs_def trim_def isWhiteSpace_def)

text \<open>
  C8. In \<^verbatim>\<open>processVideoFile\<close> a failure of the extraction, the preprocessing or the
  embedding of a frame only skips that frame. The function fails, with the message
  that no frame could be processed, exactly when all ten attempts failed; otherwise it
  returns the element-wise mean of the embeddings of the frames that succeeded, which
  are finite vectors of 768 components. The runtime is assumed to render every number
  as a non-empty string, as \<^verbatim>\<open>Number.prototype.toString\<close> does.
\<close>

theorem processVideoFile_skips_failed_frames:
  assumes "\<forall>x. numberToString rt x \<noteq> []"
  shows "\<exists>vs. successes (map (frameEmbedding rt st filePath) [0..<10]) = map (map Num) vs
           \<and> list_all (\<lambda>v. length v = 768) vs
           \<and> processVideoFile rt st filePath =
               (if vs = []
                then Inl (Error ''Failed to process video file: No frames could be processed from video.'')
                else Inr (EmbeddingResult (Vector (map Num (elementwiseMean vs)))))"
proof -
  obtain vs where vs:
    "successes (map (frameEmbedding rt st filePath) [0..<10]) = map (map Num) vs"
    "list_all (\<lambda>v. length v = 768) vs"
    using successes_finite [of "frameEmbedding rt st filePath" 768 "[0..<10]"]
      frameEmbedding_finite [OF assms]
    by blast
  have run: "processVideoFile rt st filePath =
      rethrowAs ''Failed to process video file: ''
        (if map (map Num) vs = []
         then Inl (Error ''No frames could be processed from video.'')
         else (case averageEmbeddings (map (map Num) vs) of
                 Inl e \<Rightarrow> Inl e
               | Inr finalEmbedding \<Rightarrow> Inr (EmbeddingResult (Vector finalEmbedding))))"
    by (simp only: processVideoFile_def Let_def fold_successes vs(1) append_Nil length_0_conv)
  show ?thesis
  proof (cases "vs = []")
    case True
    with run vs show ?thesis
      by (auto simp: rethrowAs_def messageOrUnknown_def)
  next
    case False
    then have "list_all (\<lambda>v. length v = length (hd vs)) vs"
      using vs(2) by (cases vs) (auto simp: list_all_iff)
    from averageEmbeddings_mean [OF False this] run False vs show ?thesis
      by (auto simp: rethrowAs_def)
  qed
qed

theorem processVideoFile_skips_failed_frames_witness:
  "(\<forall>x. numberToString exampleRuntime x \<noteq> [])
   \<and> (\<exists>vs. successes (map (frameEmbedding exampleRuntime emptyStore ''/clips/seven.mp4'') [0..<10])
            = map (map Num) vs
          \<and> length vs = 7
          \<and> processVideoFile exampleRuntime emptyStore ''/clips/seven.mp4''
            = Inr (EmbeddingResult (Vector (map Num (elementwiseMean vs)))))
   \<and> processVideoFile exampleRuntime emptyStore ''/clips/none.mp4''
       = Inl (Error ''Failed to process video file: No frames could be processed from video.'')"
proof -
  note renders = exampleRuntime_renders
  from processVideoFile_skips_failed_frames [OF renders, of emptyStore "''/clips/seven.mp4''"]
  obtain vs where vs:
    "successes (map (frameEmbedding exampleRuntime emptyStore ''/clips/seven.mp4'') [0..<10])
       = map (map Num) vs"
    "processVideoFile exampleRuntime emptyStore ''/clips/seven.mp4'' =
       (if vs = []
        then Inl (Error ''Failed to process video file: No frames could be processed from video.'')
        else Inr (EmbeddingResult (Vector (map Num (elementwiseMean vs)))))"
    by blast
  have "length (map (map Num) vs) = 7"
    by (simp only: vs(1) [symmetric] seven_frames length_replicate)
  then have seven: "length vs = 7"
    by simp
  then have "vs \<noteq> []"
    by auto
  with vs(2) have ok: "processVideoFile exampleRuntime emptyStore ''/clips/seven.mp4''
      = Inr (EmbeddingResult (Vector (map Num (elementwiseMean vs))))"
    by simp
  from processVideoFile_skips_failed_frames [OF renders, of emptyStore "''/clips/none.mp4''"]
  obtain ws where ws:
    "successes (map (frameEmbedding exampleRuntime emptyStore ''/clips/none.mp4'') [0..<10])
       = map (map Num) ws"
    "processVideoFile exampleRuntime emptyStore ''/clips/none.mp4'' =
       (if ws = []
        then Inl (Error ''Failed to process video file: No frames could be processed from video.'')
        else Inr (EmbeddingResult (Vector (map Num (elementwiseMean ws)))))"
    by blast
  have "ws = []"
    using ws(1) by (simp add: no_frames)
  with ws(2) have none: "processVideoFile exampleRuntime emptyStore ''/clips/none.mp4''
       = Inl (Error ''Failed to process video file: No frames could be processed from video.'')"
    by simp
  from renders vs(1) seven ok none show ?thesis
    by blast
qed




text \<open>
  C1. For every list of files, \<^verbatim>\<open>processFolderFiles\<close> returns one result for each
  file, in the order of the files: the result of the file at that position, a success
  when \<^verbatim>\<open>processFile\<close> returned and the message of the error when it threw, each file
  being processed in the state that the files before it left. No failure ends the
  loop. The progress callback, when there is one, is called once after every file,
  with the number of files processed so far and the total.
\<close>

theorem processFolderFiles_outcomes:
  "results (processFolderFiles rt st files progressCallback)
     = map (outcomeAt rt) (zip files (batchStates rt st files))
   \<and> length (results (processFolderFiles rt st files progressCallback)) = length files
   \<and> map file' (results (processFolderFiles rt st files progressCallback)) = files
   \<and> progressCalls (processFolderFiles rt st files True)
     = map (\<lambda>k. (k, length files)) [1..<Suc (length files)]
   \<and> progressCalls (processFolderFiles rt st files False) = []"
proof -
  have res: "results (processFolderFiles rt st files progressCallback)
     = map (outcomeAt rt) (zip files (batchStates rt st files))"
    by (simp add: processFolderFiles_def processFolderLoop_results)
  have "map file' (map (outcomeAt rt) (zip files (batchStates rt st files))) = files"
    using map_file_outcomes [of "batchStates rt st files" files rt] by simp
  with res show ?thesis
    by (simp add: processFolderFiles_def processFolderLoop_calls processFolderLoop_no_callback)
qed

theorem processFolderFiles_outcomes_witness:
  "results (processFolderFiles exampleRuntime emptyStore [helloFile, binFile, helloFile] True)
     = [\<lparr>file' = helloFile, success = Some True, error = None\<rparr>,
        \<lparr>file' = binFile, success = None, error = Some ''Unsupported file type: data.bin''\<rparr>,
        \<lparr>file' = helloFile, success = Some True, error = None\<rparr>]
   \<and> progressCalls (processFolderFiles exampleRuntime emptyStore [helloFile, binFile, helloFile] True)
     = [(1, 3), (2, 3), (3, 3)]"
proof -
  define d1 :: ItemDocType where
    "d1 = \<lparr>docId = ''docshellotxt_1700000000000'', path = ''/docs/hello.txt'',
           docType = TextItem, docEmbedding = Vector (map Num helloVector),
           dateAdded = ''1700000000001''\<rparr>"
  define s1 where "s1 = emptyStore\<lparr>clockReads := 2, itemsCollection := Some [d1]\<rparr>"
  have ios: "\<not> platformIsIOS exampleRuntime"
    by (simp add: exampleRuntime_def)
  have uri: "uri helloFile = ''/docs/hello.txt''"
    by (simp add: helloFile_def)
  have kept: "filter isAlphaNumeric ''/docs/hello.txt'' = ''docshellotxt''"
    by (simp add: isAlphaNumeric_def)
  have text0: "processTextFile exampleRuntime emptyStore (uri helloFile)
      = Inr (EmbeddingResult (Vector (map Num helloVector)))"
    by (simp add: uri processTextFile_hello emptyStore_def)
  have id0: "''docshellotxt_1700000000000''
      = filter isAlphaNumeric (uri helloFile) @ ''_''
          @ numberToString exampleRuntime (Num (real (dateNow exampleRuntime (clockReads emptyStore))))"
    by (simp only: uri kept)
       (simp add: exampleRuntime_def emptyStore_def exampleNumberToString_def
          decimalDigits.simps digitChar_def)
  have date0: "toISOString exampleRuntime (dateNow exampleRuntime (Suc (clockReads emptyStore)))
      = ''1700000000001''"
    by (simp add: exampleRuntime_def emptyStore_def decimalDigits.simps digitChar_def)
  have "processFile exampleRuntime emptyStore helloFile = (Inr True, s1)"
    using processFile_inserts [OF ios helloFile_type text0 _ id0, of "[]"]
    by (simp add: date0 uri s1_def d1_def) (simp add: emptyStore_def)
  then have first: "fst (processFile exampleRuntime emptyStore helloFile) = Inr True"
    and state: "snd (processFile exampleRuntime emptyStore helloFile) = s1"
    by simp_all
  have second: "processFile exampleRuntime s1 binFile
      = (Inl (Error ''Unsupported file type: data.bin''), s1)"
    using processFile_unsupported [OF binFile_type ios, of s1]
    by (simp add: typeOr_def binFile_def)
  have text1: "processTextFile exampleRuntime s1 (uri helloFile)
      = Inr (EmbeddingResult (Vector (map Num helloVector)))"
    by (simp add: uri processTextFile_hello s1_def emptyStore_def)
  have id1: "''docshellotxt_1700000000002''
      = filter isAlphaNumeric (uri helloFile) @ ''_''
          @ numberToString exampleRuntime (Num (real (dateNow exampleRuntime (clockReads s1))))"
    by (simp only: uri kept)
       (simp add: exampleRuntime_def s1_def exampleNumberToString_def
          decimalDigits.simps digitChar_def)
  have stored: "itemsCollection s1 = Some [d1]"
    by (simp add: s1_def)
  have fresh: "''docshellotxt_1700000000002'' \<notin> docId ` set [d1]"
    by (simp add: d1_def)
  from processFile_inserts [OF ios helloFile_type text1 stored id1 fresh]
  have third: "fst (processFile exampleRuntime s1 helloFile) = Inr True"
    by simp
  have "[1..<Suc (length [helloFile, binFile, helloFile])] = [1, 2, 3]"
    by (simp add: upt_conv_Cons)
  with processFolderFiles_outcomes [of exampleRuntime emptyStore "[helloFile, binFile, helloFile]" True]
    first second third
  show ?thesis
    by (simp add: outcomeAt_def resultOf_def state)
qed



text \<open>
  C3. For every corpus, query vector and limit, and every positive threshold,
  \<^verbatim>\<open>searchByVector\<close> on an initialised store retains exactly the records within the
  threshold, each with its distance, returns them in ascending order of distance cut
  to the limit, and gives each the score \<open>max 0 (1 - d / threshold)\<close>. When a record of
  the corpus has the query itself as its embedding and the limit is positive, the
  first result has that embedding and the score 1. The selection, the order and the
  cut are the engine's, modelled from the specification; the score is the code's,
  \<open>1 - d / threshold\<close>, which is the same number on a retained record.
\<close>

theorem searchByVector_ranks_within_threshold:
  assumes "0 < threshold" and "itemsCollection st = Some docs"
  shows "\<exists>retained.
      map fst retained = filter (withinThreshold query threshold) docs
    \<and> (\<forall>(d, x)\<in>set retained.
          euclideanDistance query (docEmbedding d) = Some x \<and> 0 \<le> x \<and> x \<le> threshold)
    \<and> sorted (map snd (sort_key snd retained))
    \<and> searchByVector st query limit threshold
        = Inr (map (scored threshold) (take limit (sort_key snd retained)))
    \<and> ((\<exists>d\<in>set docs. docEmbedding d = Vector query) \<and> finiteValues query \<noteq> None \<and> 0 < limit
        \<longrightarrow> (\<exists>first others.
               searchByVector st query limit threshold = Inr (first # others)
             \<and> docEmbedding (doc first) = Vector query \<and> score first = Num 1))"
proof -
  let ?W = "concat (map (withinDistance query threshold) docs)"
  let ?S = "sort_key snd ?W"
  have dists: "\<forall>(d, x)\<in>set ?W.
      euclideanDistance query (docEmbedding d) = Some x \<and> 0 \<le> x \<and> x \<le> threshold"
  proof (clarify)
    fix d x
    assume "(d, x) \<in> set ?W"
    then have "euclideanDistance query (docEmbedding d) = Some x \<and> x \<le> threshold"
      by (simp only: retained_distances)
    then show "euclideanDistance query (docEmbedding d) = Some x \<and> 0 \<le> x \<and> x \<le> threshold"
      using euclideanDistance_nonneg by blast
  qed
  have sorted: "sorted (map snd ?S)"
    by (rule sorted_sort_key)
  note run = searchByVector_scored [OF assms, of query limit]
  have exact: "\<exists>first others.
               searchByVector st query limit threshold = Inr (first # others)
             \<and> docEmbedding (doc first) = Vector query \<and> score first = Num 1"
    if match: "\<exists>d\<in>set docs. docEmbedding d = Vector query"
      and fin: "finiteValues query \<noteq> None" and limit: "0 < limit"
  proof -
    from match obtain d0 where d0: "d0 \<in> set docs" "docEmbedding d0 = Vector query"
      by blast
    from fin obtain qs where "finiteValues query = Some qs"
      by blast
    then have "euclideanDistance query (docEmbedding d0) = Some 0"
      using d0(2) by (simp add: euclideanDistance_self)
    with d0(1) assms(1) have "(d0, 0) \<in> set ?W"
      by (simp only: retained_distances) simp
    then have "(d0, 0) \<in> set ?S"
      by (simp only: set_sort)
    moreover have "\<forall>(d, x)\<in>set ?S. 0 \<le> x"
      using dists by (simp only: set_sort) blast
    ultimately have ne: "?S \<noteq> []" and least: "snd (hd ?S) = 0"
      using sorted_head_least [OF sorted] by blast+
    obtain d rest where S: "?S = (d, 0) # rest"
      using ne least by (cases ?S) auto
    then have "(d, 0) \<in> set ?W"
      by (metis list.set_intros(1) set_sort)
    then have "euclideanDistance query (docEmbedding d) = Some 0"
      by (simp only: retained_distances)
    then have emb: "docEmbedding d = Vector query"
      by (rule euclideanDistance_zero)
    obtain k where "limit = Suc k"
      using limit by (cases limit) auto
    with run S have "searchByVector st query limit threshold
        = Inr (scored threshold (d, 0) # map (scored threshold) (take k rest))"
      by simp
    moreover have "doc (scored threshold (d, 0)) = d" "score (scored threshold (d, 0)) = Num 1"
      by (simp_all add: scored_def)
    ultimately show ?thesis
      using emb by metis
  qed
  from retained_docs [of query threshold docs] dists sorted run exact show ?thesis
    by blast
qed

theorem searchByVector_ranks_within_threshold_witness:
  "(0::real) < 1 / 2
   \<and> itemsCollection searchStore = Some [farDoc, nearDoc, exactDoc]
   \<and> (\<exists>d\<in>set [farDoc, nearDoc, exactDoc]. docEmbedding d = Vector [Num 0, Num 0])
   \<and> finiteValues [Num 0, Num 0] \<noteq> None \<and> (0::nat) < 5
   \<and> (\<exists>first others.
         searchByVector searchStore [Num 0, Num 0] 5 (1 / 2) = Inr (first # others)
       \<and> docEmbedding (doc first) = Vector [Num 0, Num 0] \<and> score first = Num 1)
   \<and> searchByVector searchStore [Num 0, Num 0] 5 (1 / 2)
       = Inr [\<lparr>doc = exactDoc, score = Num 1\<rparr>, \<lparr>doc = nearDoc, score = Num (1 / 2)\<rparr>]
   \<and> filter (withinThreshold [Num 0, Num 0] (1 / 2)) [farDoc, nearDoc, exactDoc]
       = [nearDoc, exactDoc]"
proof -
  have pos: "(0::real) < 1 / 2"
    by simp
  have store: "itemsCollection searchStore = Some [farDoc, nearDoc, exactDoc]"
    by (simp add: searchStore_def)
  have match: "\<exists>d\<in>set [farDoc, nearDoc, exactDoc]. docEmbedding d = Vector [Num 0, Num 0]"
    by (simp add: exactDoc_def)
  have fin: "finiteValues [Num 0, Num 0] \<noteq> None"
    by simp
  have within: "filter (withinThreshold [Num 0, Num 0] (1 / 2)) [farDoc, nearDoc, exactDoc]
       = [nearDoc, exactDoc]"
    by (simp add: withinThreshold_def example_distances)
  from searchByVector_ranks_within_threshold [OF pos store, of "[Num 0, Num 0]" 5] match fin
  have "\<exists>first others.
         searchByVector searchStore [Num 0, Num 0] 5 (1 / 2) = Inr (first # others)
       \<and> docEmbedding (doc first) = Vector [Num 0, Num 0] \<and> score first = Num 1"
    by auto
  moreover have "(0::nat) < 5"
    by simp
  ultimately show ?thesis
    using pos store match fin within example_search by blast
qed

end
